theory Spec2Isabelle
  imports Complex_Main "HOL-Library.Multiset"
begin

section \<open>Calendar days\<close>

text \<open>
  JavaScript numbers that carry percentages and pixel offsets are modelled as exact
  reals; rounding of IEEE doubles is outside the model. A \<open>Date\<close> of the layout code
  is always a local midnight (\<open>parseISO\<close> of a calendar date, a week start, or
  \<open>addDays\<close> of one), so it is modelled by its calendar day number. On day numbers
  the date-fns helpers used by the component are plain integer arithmetic.
\<close>

type_synonym Date = int

definition differenceInCalendarDays :: "Date \<Rightarrow> Date \<Rightarrow> int" where
  "differenceInCalendarDays later earlier = later - earlier"

definition addDays :: "Date \<Rightarrow> int \<Rightarrow> Date" where
  "addDays d n = d + n"

section \<open>Time-axis mappers (Timeline.tsx)\<close>

text \<open>
  The backward scan of \<open>dayToEvenPercent\<close>: \<open>for (i = n - 1; i >= 0; i--)\<close>, taking the
  first \<open>i\<close> with \<open>day >= weekStarts[i]\<close>. The third argument is \<open>i + 1\<close>; when the
  scan runs out, \<open>weekIdx\<close> keeps its initial value 0.
\<close>

fun findWeekIdx :: "Date \<Rightarrow> Date list \<Rightarrow> nat \<Rightarrow> nat" where
  "findWeekIdx day weekStarts 0 = 0"
| "findWeekIdx day weekStarts (Suc i) =
     (if day \<ge> weekStarts ! i then i else findWeekIdx day weekStarts i)"

definition dayToEvenPercent :: "Date \<Rightarrow> Date list \<Rightarrow> Date \<Rightarrow> real" where
  "dayToEvenPercent day weekStarts endDate =
     (if length weekStarts = 0 then 0
      else
        let numWeeks = length weekStarts;
            weekIdx = findWeekIdx day weekStarts (length weekStarts);
            weekStart = weekStarts ! weekIdx;
            weekEnd = (if weekIdx < numWeeks - 1 then weekStarts ! (weekIdx + 1)
                       else addDays endDate 1);
            weekDays = differenceInCalendarDays weekEnd weekStart;
            dayInWeek = differenceInCalendarDays day weekStart;
            fractionalPos = (if weekDays > 0 then real_of_int dayInWeek / real_of_int weekDays
                             else 0);
            weekWidth = 100 / real numWeeks
        in real weekIdx * weekWidth + fractionalPos * weekWidth)"

definition dayToLinearPercent :: "Date \<Rightarrow> Date \<Rightarrow> int \<Rightarrow> real" where
  "dayToLinearPercent day startDate totalDays =
     (if totalDays \<le> 0 then 0
      else
        let dayIndex = differenceInCalendarDays day startDate
        in (real_of_int dayIndex / real_of_int totalDays) * 100)"

section \<open>Data model (types.ts)\<close>

datatype Team = Red | Blue

text \<open>
  \<open>lane\<close> is declared \<open>1 | 2 | 3 | 4\<close>, but the components read it as
  \<open>event.lane ?? 1\<close>: a document loaded without a lane has none. \<open>None\<close> is that
  missing field.
\<close>

record TimelineEvent =
  event_id :: string
  date :: string
  team :: Team
  description :: string
  lane :: "int option"

section \<open>Event position resolver (Timeline.tsx)\<close>

record TeamEvent =
  event :: TimelineEvent
  percent :: real

record PositionedEvent = TeamEvent +
  stackIndex :: nat
  clusterSize :: nat
  truncated :: bool

record EventPositions =
  red :: "PositionedEvent list"
  blue :: "PositionedEvent list"

definition CLUSTER_VISIBLE_LIMIT :: nat where
  "CLUSTER_VISIBLE_LIMIT = 3"

definition PROXIMITY_THRESHOLD_PCT :: real where
  "PROXIMITY_THRESHOLD_PCT = 1.5"

text \<open>
  One pass of the clustering loop. \<open>clusters\<close> is an array of arrays and
  \<open>lastCluster.push(ev)\<close> grows its last element in place; here the last element is
  replaced by the grown one. \<open>lastCluster\<close> is undefined exactly when \<open>clusters\<close> is
  empty, and \<open>lastCluster[0]\<close> is the head of a cluster that was created with one
  member (lemma \<open>formClusters_nonempty\<close>).
\<close>

definition addToClusters :: "TeamEvent list list \<Rightarrow> TeamEvent \<Rightarrow> TeamEvent list list" where
  "addToClusters clusters ev =
     (if clusters \<noteq> [] \<and>
         \<bar>percent ev - percent (hd (last clusters))\<bar> < PROXIMITY_THRESHOLD_PCT
      then butlast clusters @ [last clusters @ [ev]]
      else clusters @ [[ev]])"

definition formClusters :: "TeamEvent list \<Rightarrow> TeamEvent list list" where
  "formClusters teamEvents = foldl addToClusters [] teamEvents"

definition positionInCluster :: "nat \<Rightarrow> nat \<times> TeamEvent \<Rightarrow> PositionedEvent" where
  "positionInCluster size_of_cluster = (\<lambda>(i, ev).
     \<lparr> event = event ev, percent = percent ev, stackIndex = i,
       clusterSize = size_of_cluster,
       truncated = (size_of_cluster > CLUSTER_VISIBLE_LIMIT \<and> i \<ge> CLUSTER_VISIBLE_LIMIT) \<rparr>)"

definition assignPositions :: "TeamEvent list \<Rightarrow> PositionedEvent list" where
  "assignPositions teamEvents =
     concat (map (\<lambda>cluster. map (positionInCluster (length cluster)) (enumerate 0 cluster))
                 (formClusters teamEvents))"

text \<open>
  \<open>Array.prototype.sort\<close> is stable, and so is \<open>sort_key\<close>. The comparator subtracts
  the time stamps of the parsed dates, which orders by calendar day. The loop that
  pushes each sorted event onto \<open>redEvents\<close> or \<open>blueEvents\<close> is a partition.
\<close>

definition getEventPositions ::
  "(string \<Rightarrow> Date) \<Rightarrow> TimelineEvent list \<Rightarrow> (Date \<Rightarrow> real) \<Rightarrow> EventPositions" where
  "getEventPositions parseISO events toPercent =
     (let sortedEvents = sort_key (\<lambda>e. parseISO (date e)) events;
          withPercent = map (\<lambda>e. \<lparr> event = e, percent = toPercent (parseISO (date e)) \<rparr>)
                            sortedEvents;
          redEvents = filter (\<lambda>te. team (event te) = Red) withPercent;
          blueEvents = filter (\<lambda>te. team (event te) \<noteq> Red) withPercent
      in \<lparr> red = assignPositions redEvents, blue = assignPositions blueEvents \<rparr>)"

section \<open>Cluster overflow badges and flags (Timeline.tsx)\<close>

definition poleHeight :: int where
  "poleHeight = 30"

definition stackSpacing :: int where
  "stackSpacing = 32"

record ClusterOverflow =
  overflowPercent :: real
  overflowCount :: nat
  overflowOffset :: int
  overflowEvents :: "TimelineEvent list"

text \<open>
  The loop of \<open>redOverflows\<close> and \<open>blueOverflows\<close> (the two bodies are the same):
  \<open>team_list\<close> is the whole positioned list that \<open>filter\<close> rescans, \<open>seen\<close> the set of
  dates already given a badge.
\<close>

fun overflowLoop ::
  "PositionedEvent list \<Rightarrow> string set \<Rightarrow> PositionedEvent list \<Rightarrow> ClusterOverflow list" where
  "overflowLoop team_list seen [] = []"
| "overflowLoop team_list seen (p # rest) =
     (if \<not> truncated p \<or> date (event p) \<in> seen then overflowLoop team_list seen rest
      else
        let hidden = filter (\<lambda>r. truncated r \<and> date (event r) = date (event p)) team_list;
            offset = poleHeight + int CLUSTER_VISIBLE_LIMIT * stackSpacing
        in \<lparr> overflowPercent = percent p, overflowCount = length hidden,
             overflowOffset = offset, overflowEvents = map event hidden \<rparr>
           # overflowLoop team_list (insert (date (event p)) seen) rest)"

definition redOverflows :: "EventPositions \<Rightarrow> ClusterOverflow list" where
  "redOverflows positions = overflowLoop (red positions) {} (red positions)"

definition blueOverflows :: "EventPositions \<Rightarrow> ClusterOverflow list" where
  "blueOverflows positions = overflowLoop (blue positions) {} (blue positions)"

text \<open>
  \<open>renderEvent\<close> returns null for a truncated record and otherwise a flag; of the
  flag only the style values are kept: the vertical offset of the flag head, the
  height of the pole, the horizontal position and the z-index.
\<close>

record Flag =
  flagOffset :: int
  poleStyleHeight :: int
  flagLeft :: real
  flagZIndex :: int

definition renderEvent :: "PositionedEvent \<Rightarrow> Flag option" where
  "renderEvent positioned =
     (if truncated positioned then None
      else
        let lane0 = (case lane (event positioned) of None \<Rightarrow> 1 | Some l \<Rightarrow> l) - 1;
            offset = poleHeight + lane0 * stackSpacing;
            flagHeadHeight = 10
        in Some \<lparr> flagOffset = offset, poleStyleHeight = offset + flagHeadHeight,
                  flagLeft = percent positioned, flagZIndex = 5 - lane0 \<rparr>)"

section \<open>The Timeline component\<close>

record TimelineConfig =
  startDate :: string
  endDate :: string
  title :: string

datatype TimeScale = days | weeks

text \<open>
  The derived values of the \<open>Timeline\<close> component. \<open>parseISO\<close> and
  \<open>eachWeekOfInterval\<close> belong to date-fns and are parameters: \<open>parseISO\<close> gives the
  day number of a validated calendar date, \<open>eachWeek start end\<close> the Monday week
  starts of the interval.
\<close>

definition totalDays :: "(string \<Rightarrow> Date) \<Rightarrow> TimelineConfig \<Rightarrow> int" where
  "totalDays parseISO cfg =
     differenceInCalendarDays (parseISO (endDate cfg)) (parseISO (startDate cfg))"

definition weekStarts ::
  "(string \<Rightarrow> Date) \<Rightarrow> (Date \<Rightarrow> Date \<Rightarrow> Date list) \<Rightarrow> TimelineConfig \<Rightarrow> Date list" where
  "weekStarts parseISO eachWeek cfg =
     (if totalDays parseISO cfg \<le> 0 then []
      else eachWeek (parseISO (startDate cfg)) (parseISO (endDate cfg)))"

definition toPercent ::
  "(string \<Rightarrow> Date) \<Rightarrow> (Date \<Rightarrow> Date \<Rightarrow> Date list) \<Rightarrow> TimelineConfig \<Rightarrow> TimeScale
     \<Rightarrow> Date \<Rightarrow> real" where
  "toPercent parseISO eachWeek cfg timeScale day =
     (if timeScale = days
      then dayToLinearPercent day (parseISO (startDate cfg)) (totalDays parseISO cfg)
      else dayToEvenPercent day (weekStarts parseISO eachWeek cfg) (parseISO (endDate cfg)))"

section \<open>JSON import (importJson.ts)\<close>

text \<open>
  The value that \<open>JSON.parse\<close> returns. An object is the list of its members in
  document order; for a repeated key \<open>JSON.parse\<close> keeps the last value. A text that
  does not parse never reaches the checks below: \<open>JSON.parse\<close> throws and the import
  is rejected with that error.
\<close>

datatype json =
    JNull
  | JBool bool
  | JNumber real
  | JString string
  | JArray "json list"
  | JObject "(string \<times> json) list"

text \<open>
  \<open>typeof v === "object" && v !== null\<close>: true of objects and of arrays.
\<close>

fun isObject :: "json \<Rightarrow> bool" where
  "isObject (JObject members) = True"
| "isObject (JArray elems) = True"
| "isObject v = False"

text \<open>
  Reading a property; \<open>None\<close> is \<open>undefined\<close>. The code reads properties only of
  values that passed \<open>isObject\<close>, and none of the names it reads (\<open>config\<close>, \<open>events\<close>,
  \<open>title\<close>, \<open>startDate\<close>, \<open>endDate\<close>, \<open>id\<close>, \<open>date\<close>, \<open>team\<close>, \<open>description\<close>,
  \<open>lane\<close>) is a property of an array.
\<close>

fun getProp :: "json \<Rightarrow> string \<Rightarrow> json option" where
  "getProp (JObject members) k = map_of (rev members) k"
| "getProp v k = None"

text \<open>
  \<open>String.prototype.trim\<close>. A string is held as the UTF-8 bytes of the JavaScript
  string, so a code point beyond ASCII is a sequence of two or three bytes. \<open>trim\<close>
  strips, at both ends, every code point that is WhiteSpace or LineTerminator in
  ECMAScript: U+0009 to U+000D, U+0020, U+00A0, U+1680, U+2000 to U+200A, U+2028,
  U+2029, U+202F, U+205F, U+3000 and U+FEFF. \<open>whiteSpace\<close> lists their encodings.
\<close>

definition whiteSpace :: "string list" where
  "whiteSpace =
     [[CHR 0x09], [CHR 0x0A], [CHR 0x0B], [CHR 0x0C], [CHR 0x0D], [CHR 0x20],
      [CHR 0xC2, CHR 0xA0],
      [CHR 0xE1, CHR 0x9A, CHR 0x80],
      [CHR 0xE2, CHR 0x80, CHR 0x80], [CHR 0xE2, CHR 0x80, CHR 0x81],
      [CHR 0xE2, CHR 0x80, CHR 0x82], [CHR 0xE2, CHR 0x80, CHR 0x83],
      [CHR 0xE2, CHR 0x80, CHR 0x84], [CHR 0xE2, CHR 0x80, CHR 0x85],
      [CHR 0xE2, CHR 0x80, CHR 0x86], [CHR 0xE2, CHR 0x80, CHR 0x87],
      [CHR 0xE2, CHR 0x80, CHR 0x88], [CHR 0xE2, CHR 0x80, CHR 0x89],
      [CHR 0xE2, CHR 0x80, CHR 0x8A],
      [CHR 0xE2, CHR 0x80, CHR 0xA8], [CHR 0xE2, CHR 0x80, CHR 0xA9],
      [CHR 0xE2, CHR 0x80, CHR 0xAF],
      [CHR 0xE2, CHR 0x81, CHR 0x9F],
      [CHR 0xE3, CHR 0x80, CHR 0x80],
      [CHR 0xEF, CHR 0xBB, CHR 0xBF]]"

definition isWhiteSpace :: "string \<Rightarrow> bool" where
  "isWhiteSpace bytes = (bytes \<in> set whiteSpace)"

text \<open>
  Stripping at the start: as long as the string begins with the encoding of a white
  space code point, that encoding is dropped.
\<close>

fun trimStart :: "string \<Rightarrow> string" where
  "trimStart (a # b # c # rest) =
     (if isWhiteSpace [a] then trimStart (b # c # rest)
      else if isWhiteSpace [a, b] then trimStart (c # rest)
      else if isWhiteSpace [a, b, c] then trimStart rest
      else a # b # c # rest)"
| "trimStart [a, b] =
     (if isWhiteSpace [a] then trimStart [b]
      else if isWhiteSpace [a, b] then []
      else [a, b])"
| "trimStart [a] = (if isWhiteSpace [a] then [] else [a])"
| "trimStart [] = []"

text \<open>
  Stripping at the end, on the reversed string: its first bytes are the last bytes of
  the string, last byte first.
\<close>

fun trimEndReversed :: "string \<Rightarrow> string" where
  "trimEndReversed (c # b # a # rest) =
     (if isWhiteSpace [c] then trimEndReversed (b # a # rest)
      else if isWhiteSpace [b, c] then trimEndReversed (a # rest)
      else if isWhiteSpace [a, b, c] then trimEndReversed rest
      else c # b # a # rest)"
| "trimEndReversed [c, b] =
     (if isWhiteSpace [c] then trimEndReversed [b]
      else if isWhiteSpace [b, c] then []
      else [c, b])"
| "trimEndReversed [c] = (if isWhiteSpace [c] then [] else [c])"
| "trimEndReversed [] = []"

definition trim :: "string \<Rightarrow> string" where
  "trim s = rev (trimEndReversed (rev (trimStart s)))"

text \<open>
  \<open>parseISO\<close> of date-fns is a parameter: \<open>None\<close> is the Invalid Date, for which
  \<open>isValid\<close> is false. The argument of \<open>isValidISODate\<close> is a property that was read,
  so it may be \<open>undefined\<close>.
\<close>

definition isValidISODate :: "(string \<Rightarrow> Date option) \<Rightarrow> json option \<Rightarrow> bool" where
  "isValidISODate parseISO v =
     (case v of Some (JString text) \<Rightarrow> parseISO text \<noteq> None | _ \<Rightarrow> False)"

text \<open>
  The errors thrown, one constructor for each message:
  \<open>Event at index i is not an object\<close>,
  \<open>Event at index i: "date" must be a valid ISO date string\<close>,
  \<open>Event at index i: "team" must be "red" or "blue"\<close>,
  \<open>Event at index i: "description" must be a non-empty string\<close>,
  \<open>JSON root must be an object\<close>, \<open>Missing or invalid "config" object\<close>,
  \<open>config.title must be a non-empty string\<close>,
  \<open>config.startDate must be a valid ISO date string\<close>,
  \<open>config.endDate must be a valid ISO date string\<close>, \<open>"events" must be an array\<close>.
\<close>

datatype ImportError =
    EventNotObject nat
  | EventDateInvalid nat
  | EventTeamInvalid nat
  | EventDescriptionInvalid nat
  | RootNotObject
  | ConfigInvalid
  | ConfigTitleInvalid
  | ConfigStartDateInvalid
  | ConfigEndDateInvalid
  | EventsNotArray

text \<open>
  The reads \<open>typeof v === "string"\<close> followed by a use of \<open>v\<close>: the string of a
  property, if it is one.
\<close>

fun asString :: "json option \<Rightarrow> string option" where
  "asString (Some (JString text)) = Some text"
| "asString v = None"

text \<open>
  \<open>typeof v !== "string" || v.trim() === ""\<close>, the test on \<open>description\<close> and on
  \<open>config.title\<close>; its negation is the test on \<open>id\<close>.
\<close>

definition isBlank :: "json option \<Rightarrow> bool" where
  "isBlank v = (case asString v of None \<Rightarrow> True | Some text \<Rightarrow> trim text = [])"

text \<open>
  \<open>uuidv4()\<close> is a generator with hidden state: \<open>uuidv4 n\<close> is the identifier that its
  call number \<open>n\<close> returns, and the number of calls made so far is passed along.
  \<open>validateEvent\<close> returns the event and the new number of calls. The fields copied
  from the document are strings at the point where they are copied.
\<close>

definition validateEvent ::
  "(string \<Rightarrow> Date option) \<Rightarrow> (nat \<Rightarrow> string) \<Rightarrow> nat \<Rightarrow> json \<Rightarrow> nat
     \<Rightarrow> ImportError + (TimelineEvent \<times> nat)" where
  "validateEvent parseISO uuidv4 calls e index =
     (if \<not> isObject e then Inl (EventNotObject index)
      else if \<not> isValidISODate parseISO (getProp e ''date'')
        then Inl (EventDateInvalid index)
      else if getProp e ''team'' \<noteq> Some (JString ''red'')
              \<and> getProp e ''team'' \<noteq> Some (JString ''blue'')
        then Inl (EventTeamInvalid index)
      else if isBlank (getProp e ''description'')
        then Inl (EventDescriptionInvalid index)
      else
        let keep_id = \<not> isBlank (getProp e ''id'');
            new_id = (if keep_id then the (asString (getProp e ''id'')) else uuidv4 calls);
            new_lane = (case getProp e ''lane'' of
                          Some (JNumber x) \<Rightarrow>
                            if x = 1 \<or> x = 2 \<or> x = 3 \<or> x = 4 then \<lfloor>x\<rfloor> else 1
                        | _ \<Rightarrow> 1)
        in Inr (\<lparr> event_id = new_id,
                  date = the (asString (getProp e ''date'')),
                  team = (if getProp e ''team'' = Some (JString ''red'') then Red else Blue),
                  description = the (asString (getProp e ''description'')),
                  lane = Some new_lane \<rparr>,
                if keep_id then calls else Suc calls))"

text \<open>
  \<open>data.events.map((event, i) => validateEvent(event, i))\<close>: the events are validated in
  order and the first throw ends the whole map.
\<close>

fun validateEvents ::
  "(string \<Rightarrow> Date option) \<Rightarrow> (nat \<Rightarrow> string) \<Rightarrow> nat \<Rightarrow> json list \<Rightarrow> nat
     \<Rightarrow> ImportError + TimelineEvent list" where
  "validateEvents parseISO uuidv4 calls [] i = Inr []"
| "validateEvents parseISO uuidv4 calls (e # rest) i =
     (case validateEvent parseISO uuidv4 calls e i of
        Inl err \<Rightarrow> Inl err
      | Inr (ev, calls') \<Rightarrow>
          (case validateEvents parseISO uuidv4 calls' rest (Suc i) of
             Inl err \<Rightarrow> Inl err
           | Inr evs \<Rightarrow> Inr (ev # evs)))"

record AppState =
  config :: TimelineConfig
  events :: "TimelineEvent list"

text \<open>
  The body of \<open>reader.onload\<close> after \<open>JSON.parse\<close>: \<open>Inr\<close> is \<open>resolve\<close>, \<open>Inl\<close> is
  \<open>reject\<close> with the error thrown.
\<close>

definition importFromJson ::
  "(string \<Rightarrow> Date option) \<Rightarrow> (nat \<Rightarrow> string) \<Rightarrow> json \<Rightarrow> ImportError + AppState" where
  "importFromJson parseISO uuidv4 data =
     (if \<not> isObject data then Inl RootNotObject
      else
        case getProp data ''config'' of
          None \<Rightarrow> Inl ConfigInvalid
        | Some cfg \<Rightarrow>
            if \<not> isObject cfg then Inl ConfigInvalid
            else if isBlank (getProp cfg ''title'') then Inl ConfigTitleInvalid
            else if \<not> isValidISODate parseISO (getProp cfg ''startDate'')
              then Inl ConfigStartDateInvalid
            else if \<not> isValidISODate parseISO (getProp cfg ''endDate'')
              then Inl ConfigEndDateInvalid
            else
              (case getProp data ''events'' of
                 Some (JArray elems) \<Rightarrow>
                   (case validateEvents parseISO uuidv4 0 elems 0 of
                      Inl err \<Rightarrow> Inl err
                    | Inr evs \<Rightarrow>
                        Inr \<lparr> config =
                                \<lparr> startDate = the (asString (getProp cfg ''startDate'')),
                                  endDate = the (asString (getProp cfg ''endDate'')),
                                  title = the (asString (getProp cfg ''title'')) \<rparr>,
                              events = evs \<rparr>)
               | _ \<Rightarrow> Inl EventsNotArray))"

section \<open>Export (useTimelineState.ts, App.tsx)\<close>

text \<open>
  \<open>exportState\<close> is \<open>structuredClone(state)\<close>: a deep copy, the same value.
\<close>

definition exportState :: "AppState \<Rightarrow> AppState" where
  "exportState state = state"

text \<open>
  Modelled from the spec: the writer of the persisted document (the toolbar's JSON
  export) is not among the sources. The spec gives the persisted format as a record
  with \<open>config: {title, startDate, endDate}\<close> and
  \<open>events: [{id, date, team, description, lane}]\<close>; \<open>handleExportState\<close> adds the
  \<open>colors\<close> of the theme to the exported state. A lane that is missing stays missing.
\<close>

definition eventToJson :: "TimelineEvent \<Rightarrow> json" where
  "eventToJson e =
     JObject ([(''id'', JString (event_id e)), (''date'', JString (date e)),
               (''team'', JString (case team e of Red \<Rightarrow> ''red'' | Blue \<Rightarrow> ''blue'')),
               (''description'', JString (description e))]
              @ (case lane e of None \<Rightarrow> [] | Some l \<Rightarrow> [(''lane'', JNumber (real_of_int l))]))"

definition documentToJson :: "json \<Rightarrow> AppState \<Rightarrow> json" where
  "documentToJson colors state =
     JObject [(''config'', JObject [(''startDate'', JString (startDate (config state))),
                                    (''endDate'', JString (endDate (config state))),
                                    (''title'', JString (title (config state)))]),
              (''events'', JArray (map eventToJson (events state))),
              (''colors'', colors)]"

section \<open>Sample inputs\<close>

text \<open>
  Concrete inputs on which the definitions are evaluated. The sample calendar counts
  days from Monday 2024-01-01 (2024 is a leap year, so 2026-09-27 is day 1000);
  \<open>sampleParse\<close> rejects a string outside the table and \<open>sampleParseISO\<close> reads it as
  day 0. With day 0 a Monday, the Monday week starts of an interval are the multiples
  of 7 from the week of its start to the week of its end, which is what
  \<open>eachWeekOfInterval\<close> with \<open>weekStartsOn: 1\<close> returns.
\<close>

definition sampleCalendar :: "(string \<times> Date) list" where
  "sampleCalendar =
     [(''2024-01-01'', 0), (''2024-01-02'', 1), (''2024-01-03'', 2), (''2024-01-04'', 3),
      (''2024-01-05'', 4), (''2024-01-08'', 7), (''2024-01-11'', 10), (''2024-01-18'', 17),
      (''2026-09-27'', 1000)]"

definition sampleParse :: "string \<Rightarrow> Date option" where
  "sampleParse = map_of sampleCalendar"

definition sampleParseISO :: "string \<Rightarrow> Date" where
  "sampleParseISO s = (case sampleParse s of Some d \<Rightarrow> d | None \<Rightarrow> 0)"

definition mondayWeeks :: "Date \<Rightarrow> Date \<Rightarrow> Date list" where
  "mondayWeeks start end = map (\<lambda>k. 7 * k) [start div 7 .. end div 7]"

definition sampleConfig :: TimelineConfig where
  "sampleConfig = \<lparr> startDate = ''2024-01-01'', endDate = ''2024-01-11'', title = ''Assessment'' \<rparr>"

definition sampleEvent :: "string \<Rightarrow> string \<Rightarrow> Team \<Rightarrow> int \<Rightarrow> TimelineEvent" where
  "sampleEvent i d t l =
     \<lparr> event_id = i, date = d, team = t, description = ''Initial recon'', lane = Some l \<rparr>"

definition degenerateConfig :: TimelineConfig where
  "degenerateConfig = \<lparr> startDate = ''2024-01-05'', endDate = ''2024-01-05'', title = ''Assessment'' \<rparr>"

definition sampleTeamEvent :: "string \<Rightarrow> real \<Rightarrow> TeamEvent" where
  "sampleTeamEvent i p = \<lparr> event = sampleEvent i ''2024-01-01'' Red 1, percent = p \<rparr>"

definition longConfig :: TimelineConfig where
  "longConfig = \<lparr> startDate = ''2024-01-01'', endDate = ''2026-09-27'', title = ''Assessment'' \<rparr>"

definition fiveDays :: "TimelineEvent list" where
  "fiveDays =
     [sampleEvent ''a'' ''2024-01-01'' Red 1, sampleEvent ''b'' ''2024-01-02'' Red 1,
      sampleEvent ''c'' ''2024-01-03'' Red 1, sampleEvent ''d'' ''2024-01-04'' Red 1,
      sampleEvent ''e'' ''2024-01-05'' Red 1]"

definition mixedTeams :: "TimelineEvent list" where
  "mixedTeams =
     [sampleEvent ''b5'' ''2024-01-18'' Blue 1,
      sampleEvent ''r1'' ''2024-01-18'' Red 1, sampleEvent ''b0'' ''2024-01-01'' Blue 1,
      sampleEvent ''r2'' ''2024-01-18'' Red 2, sampleEvent ''b1'' ''2024-01-02'' Blue 2,
      sampleEvent ''r0'' ''2024-01-01'' Red 1,
      sampleEvent ''r3'' ''2024-01-18'' Red 3, sampleEvent ''b2'' ''2024-01-03'' Blue 3,
      sampleEvent ''r4'' ''2024-01-18'' Red 4, sampleEvent ''b3'' ''2024-01-04'' Blue 4,
      sampleEvent ''r5'' ''2024-01-18'' Red 1, sampleEvent ''b4'' ''2024-01-05'' Blue 1,
      sampleEvent ''r6'' ''2026-09-27'' Red 1]"

definition twoLanes :: "int \<Rightarrow> int \<Rightarrow> TimelineEvent list" where
  "twoLanes a b =
     [sampleEvent ''a'' ''2024-01-02'' Red a, sampleEvent ''b'' ''2024-01-02'' Red b]"

definition sampleUuidv4 :: "nat \<Rightarrow> string" where
  "sampleUuidv4 n = ''uuid-'' @ replicate (Suc n) (CHR ''x'')"

definition sampleJsonEvent :: "string \<Rightarrow> string \<Rightarrow> string \<Rightarrow> string \<Rightarrow> real \<Rightarrow> json" where
  "sampleJsonEvent i d t text l =
     JObject [(''id'', JString i), (''date'', JString d), (''team'', JString t),
              (''description'', JString text), (''lane'', JNumber l)]"

definition sampleDocument :: "json \<Rightarrow> json" where
  "sampleDocument second =
     JObject [(''config'', JObject [(''title'', JString ''Assessment''),
                                    (''startDate'', JString ''2024-01-01''),
                                    (''endDate'', JString ''2024-01-11'')]),
              (''events'', JArray [sampleJsonEvent ''e1'' ''2024-01-02'' ''red'' ''Initial recon'' 2,
                                   second])]"

definition sampleState :: AppState where
  "sampleState =
     \<lparr> config = sampleConfig,
       events = [sampleEvent ''e1'' ''2024-01-02'' Red 2, sampleEvent ''e2'' ''2024-01-03'' Blue 4] \<rparr>"

definition blankIdState :: AppState where
  "blankIdState =
     \<lparr> config = sampleConfig, events = [sampleEvent '' '' ''2024-01-02'' Red 1] \<rparr>"

definition blankDescriptionState :: AppState where
  "blankDescriptionState =
     \<lparr> config = sampleConfig,
       events = [(sampleEvent ''e1'' ''2024-01-02'' Red 1)\<lparr>description := '' ''\<rparr>] \<rparr>"

definition nbspDescriptionState :: AppState where
  "nbspDescriptionState =
     \<lparr> config = sampleConfig,
       events = [(sampleEvent ''e1'' ''2024-01-02'' Red 1)
                   \<lparr>description := [CHR 0xC2, CHR 0xA0]\<rparr>] \<rparr>"

definition untitledState :: AppState where
  "untitledState =
     \<lparr> config = sampleConfig\<lparr>title := []\<rparr>, events = [sampleEvent ''e1'' ''2024-01-02'' Red 1] \<rparr>"

section \<open>Evaluating the sample inputs\<close>

lemma sampleEvent_fields:
  "event_id (sampleEvent i d t l) = i" "date (sampleEvent i d t l) = d"
  "team (sampleEvent i d t l) = t" "lane (sampleEvent i d t l) = Some l"
  by (simp_all add: sampleEvent_def)

lemma sampleParseISO_values:
  "sampleParseISO ''2024-01-01'' = 0" "sampleParseISO ''2024-01-02'' = 1"
  "sampleParseISO ''2024-01-03'' = 2" "sampleParseISO ''2024-01-04'' = 3"
  "sampleParseISO ''2024-01-05'' = 4" "sampleParseISO ''2024-01-08'' = 7"
  "sampleParseISO ''2024-01-11'' = 10" "sampleParseISO ''2024-01-18'' = 17"
  "sampleParseISO ''2026-09-27'' = 1000"
  by (simp_all add: sampleParseISO_def sampleParse_def sampleCalendar_def)

lemma sampleConfig_range:
  "sampleParseISO (startDate sampleConfig) = 0" "sampleParseISO (endDate sampleConfig) = 10"
  by (simp_all add: sampleConfig_def sampleParseISO_values)

lemma degenerateConfig_range:
  "sampleParseISO (startDate degenerateConfig) = 4"
  "sampleParseISO (endDate degenerateConfig) = 4"
  by (simp_all add: degenerateConfig_def sampleParseISO_values)

lemma sampleConfig_days:
  "toPercent sampleParseISO W sampleConfig days d = real_of_int d * 10"
  by (simp add: toPercent_def totalDays_def dayToLinearPercent_def
      differenceInCalendarDays_def sampleConfig_range)

section \<open>Positions keep the events and their percentages\<close>

lemma concat_addToClusters: "concat (addToClusters cs ev) = concat cs @ [ev]"
proof (cases "cs = []")
  case True
  then show ?thesis by (simp add: addToClusters_def)
next
  case False
  then have "concat cs = concat (butlast cs) @ last cs"
    by (metis append_butlast_last_id concat.simps concat_append append_Nil2)
  then show ?thesis by (simp add: addToClusters_def)
qed

lemma concat_foldl_addToClusters:
  "concat (foldl addToClusters cs tes) = concat cs @ tes"
  by (induction tes arbitrary: cs) (simp_all add: concat_addToClusters)

lemma concat_formClusters: "concat (formClusters tes) = tes"
  by (simp add: formClusters_def concat_foldl_addToClusters)

lemma more_positionInCluster:
  "map (\<lambda>x. \<lparr> event = event (positionInCluster n x), percent = percent (positionInCluster n x) \<rparr>)
       (enumerate k c) = c"
  by (induction c arbitrary: k) (simp_all add: positionInCluster_def)

lemma assignPositions_teamEvents:
  "map (\<lambda>p. \<lparr> event = event p, percent = percent p \<rparr>) (assignPositions tes) = tes"
proof -
  have "map (\<lambda>p. \<lparr> event = event p, percent = percent p \<rparr>) (assignPositions tes)
        = concat (formClusters tes)"
    by (simp add: assignPositions_def map_concat comp_def more_positionInCluster)
  then show ?thesis by (simp add: concat_formClusters)
qed

lemma assignPositions_event: "map event (assignPositions tes) = map event tes"
proof -
  have "map event (map (\<lambda>p. \<lparr> event = event p, percent = percent p \<rparr>) (assignPositions tes))
        = map event (assignPositions tes)"
    by (simp add: comp_def)
  then show ?thesis by (simp add: assignPositions_teamEvents)
qed

lemma getEventPositions_red:
  "red (getEventPositions P evs f)
     = assignPositions (map (\<lambda>e. \<lparr> event = e, percent = f (P (date e)) \<rparr>)
                            (filter (\<lambda>e. team e = Red) (sort_key (\<lambda>e. P (date e)) evs)))"
  by (simp add: getEventPositions_def Let_def filter_map comp_def)

lemma getEventPositions_blue:
  "blue (getEventPositions P evs f)
     = assignPositions (map (\<lambda>e. \<lparr> event = e, percent = f (P (date e)) \<rparr>)
                            (filter (\<lambda>e. team e \<noteq> Red) (sort_key (\<lambda>e. P (date e)) evs)))"
  by (simp add: getEventPositions_def Let_def filter_map comp_def)

lemma assignPositions_member:
  assumes "p \<in> set (assignPositions tes)"
  shows "\<lparr> event = event p, percent = percent p \<rparr> \<in> set tes"
proof -
  from assms have "\<lparr> event = event p, percent = percent p \<rparr>
      \<in> set (map (\<lambda>p. \<lparr> event = event p, percent = percent p \<rparr>) (assignPositions tes))"
    by (simp add: image_iff) blast
  then show ?thesis by (simp only: assignPositions_teamEvents)
qed

lemma getEventPositions_percent:
  assumes "p \<in> set (red (getEventPositions P evs f)) \<union> set (blue (getEventPositions P evs f))"
  shows "percent p = f (P (date (event p)))"
proof -
  let ?w = "map (\<lambda>e. \<lparr> event = e, percent = f (P (date e)) \<rparr>) (sort_key (\<lambda>e. P (date e)) evs)"
  from assms have "p \<in> set (assignPositions (filter (\<lambda>te. team (event te) = Red) ?w))
      \<or> p \<in> set (assignPositions (filter (\<lambda>te. team (event te) \<noteq> Red) ?w))"
    by (simp add: getEventPositions_def Let_def)
  then have "\<lparr> event = event p, percent = percent p \<rparr> \<in> set ?w"
    using assignPositions_member by fastforce
  then show ?thesis by auto
qed


section \<open>The linear-by-day mapper\<close>

lemma linear_formula:
  "0 < t \<Longrightarrow> dayToLinearPercent d s t = (real_of_int (d - s) / real_of_int t) * 100"
  by (simp add: dayToLinearPercent_def differenceInCalendarDays_def)

lemma linear_nonneg: "s \<le> d \<Longrightarrow> 0 \<le> dayToLinearPercent d s t"
  by (simp add: dayToLinearPercent_def differenceInCalendarDays_def)

lemma linear_le_100: "d - s \<le> t \<Longrightarrow> dayToLinearPercent d s t \<le> 100"
  by (simp add: dayToLinearPercent_def differenceInCalendarDays_def field_simps)

lemma linear_less_100: "d - s < t \<Longrightarrow> dayToLinearPercent d s t < 100"
  by (simp add: dayToLinearPercent_def differenceInCalendarDays_def field_simps)

lemma linear_at_end: "s < e \<Longrightarrow> dayToLinearPercent e s (e - s) = 100"
  by (simp add: dayToLinearPercent_def differenceInCalendarDays_def field_simps)

lemma toPercent_days:
  "toPercent P W cfg days x
     = dayToLinearPercent x (P (startDate cfg)) (P (endDate cfg) - P (startDate cfg))"
  by (simp add: toPercent_def totalDays_def differenceInCalendarDays_def)

text \<open>
  Claim C4, as amended. \<open>totalDays\<close> is \<open>differenceInCalendarDays(endDate, startDate)\<close>,
  the number of days from the start date to the end date (end minus start, so 0 when
  both are the same day), not the inclusive count. With a start before the end the
  linear mapper is \<open>(daysSinceStart / totalDays) * 100\<close>; every day of
  \<open>[startDate, endDate]\<close> is mapped into the closed interval \<open>[0, 100]\<close>, every day
  before the end date below 100, and the end date itself to 100.
\<close>

theorem linear_mapper_closed_range:
  "totalDays P cfg = P (endDate cfg) - P (startDate cfg)
   \<and> (P (startDate cfg) < P (endDate cfg) \<longrightarrow>
        toPercent P W cfg days d
          = (real_of_int (d - P (startDate cfg)) / real_of_int (totalDays P cfg)) * 100)
   \<and> (P (startDate cfg) \<le> d \<and> d \<le> P (endDate cfg) \<longrightarrow>
        0 \<le> toPercent P W cfg days d \<and> toPercent P W cfg days d \<le> 100)
   \<and> (P (startDate cfg) \<le> d \<and> d < P (endDate cfg) \<longrightarrow> toPercent P W cfg days d < 100)
   \<and> (P (startDate cfg) < P (endDate cfg) \<longrightarrow>
        toPercent P W cfg days (P (endDate cfg)) = 100)"
proof -
  have total: "totalDays P cfg = P (endDate cfg) - P (startDate cfg)"
    by (simp add: totalDays_def differenceInCalendarDays_def)
  have formula: "toPercent P W cfg days d
      = (real_of_int (d - P (startDate cfg)) / real_of_int (totalDays P cfg)) * 100"
    if "P (startDate cfg) < P (endDate cfg)"
    using that unfolding toPercent_days total by (intro linear_formula) simp
  have closed: "0 \<le> toPercent P W cfg days d \<and> toPercent P W cfg days d \<le> 100"
    if "P (startDate cfg) \<le> d \<and> d \<le> P (endDate cfg)"
    using that unfolding toPercent_days by (simp add: linear_nonneg linear_le_100)
  have below: "toPercent P W cfg days d < 100"
    if "P (startDate cfg) \<le> d \<and> d < P (endDate cfg)"
    using that unfolding toPercent_days by (intro linear_less_100) simp
  have at_end: "toPercent P W cfg days (P (endDate cfg)) = 100"
    if "P (startDate cfg) < P (endDate cfg)"
    using that unfolding toPercent_days by (rule linear_at_end)
  from total formula closed below at_end show ?thesis by blast
qed

theorem linear_mapper_closed_range_witness:
  "sampleParseISO (startDate sampleConfig) < sampleParseISO (endDate sampleConfig)
   \<and> sampleParseISO (startDate sampleConfig) \<le> 4 \<and> 4 < sampleParseISO (endDate sampleConfig)
   \<and> totalDays sampleParseISO sampleConfig = 10
   \<and> toPercent sampleParseISO mondayWeeks sampleConfig days 4 = 40
   \<and> toPercent sampleParseISO mondayWeeks sampleConfig days 4 < 100
   \<and> toPercent sampleParseISO mondayWeeks sampleConfig days
        (sampleParseISO (endDate sampleConfig)) = 100"
  using linear_mapper_closed_range [of sampleParseISO sampleConfig mondayWeeks 4]
  by (simp add: sampleConfig_range)

text \<open>
  Claim C4 as stated fails: for the range 2024-01-01 to 2024-01-11, \<open>totalDays\<close> is 10
  and not the inclusive 11, and the end date, a day of the range, is mapped to 100,
  outside \<open>[0, 100)\<close>.
\<close>

theorem linear_mapper_half_open_counterexample:
  "totalDays sampleParseISO sampleConfig \<noteq> 11
   \<and> sampleParseISO (startDate sampleConfig) \<le> sampleParseISO ''2024-01-11''
   \<and> sampleParseISO ''2024-01-11'' \<le> sampleParseISO (endDate sampleConfig)
   \<and> \<not> toPercent sampleParseISO mondayWeeks sampleConfig days (sampleParseISO ''2024-01-11'') < 100"
  by (simp add: sampleConfig_days sampleConfig_range sampleParseISO_values totalDays_def
      differenceInCalendarDays_def)

text \<open>
  Claim C5. The linear-by-day mapper is monotone in the day (for every pair of days,
  hence for those of the configured range) and maps the start date to 0, both as the
  bare function for any \<open>totalDays\<close> and as the mapper the component builds in days mode.
\<close>

theorem linear_mapper_monotone:
  "(a \<le> b \<longrightarrow> dayToLinearPercent a s t \<le> dayToLinearPercent b s t)
   \<and> dayToLinearPercent s s t = 0
   \<and> (a \<le> b \<longrightarrow> toPercent P W cfg days a \<le> toPercent P W cfg days b)
   \<and> toPercent P W cfg days (P (startDate cfg)) = 0"
  by (simp add: toPercent_def dayToLinearPercent_def differenceInCalendarDays_def
      divide_right_mono)

theorem linear_mapper_monotone_witness:
  "(3::int) \<le> 7 \<and> dayToLinearPercent 3 0 10 \<le> dayToLinearPercent 7 0 10
   \<and> toPercent sampleParseISO mondayWeeks sampleConfig days 3
        \<le> toPercent sampleParseISO mondayWeeks sampleConfig days 7"
  using linear_mapper_monotone [of 3 7 0 10 sampleParseISO mondayWeeks sampleConfig]
  by simp

section \<open>The evenly-bucketed-by-week mapper\<close>

lemma findWeekIdx_eq:
  "i < n \<Longrightarrow> ws ! i \<le> day \<Longrightarrow> (\<forall>j. i < j \<and> j < n \<longrightarrow> day < ws ! j)
     \<Longrightarrow> findWeekIdx day ws n = i"
proof (induction n)
  case 0
  then show ?case by simp
next
  case (Suc n)
  show ?case
  proof (cases "i = n")
    case True
    with Suc.prems show ?thesis by simp
  next
    case False
    with Suc.prems have lt: "i < n" and d: "day < ws ! n" by auto
    from Suc.prems have "\<forall>j. i < j \<and> j < n \<longrightarrow> day < ws ! j" by simp
    with Suc.IH lt Suc.prems(2) have "findWeekIdx day ws n = i" by blast
    with d show ?thesis by simp
  qed
qed

lemma findWeekIdx_sorted:
  assumes "sorted_wrt (<) ws" "i < length ws" "ws ! i \<le> day"
    "Suc i < length ws \<longrightarrow> day < ws ! Suc i"
  shows "findWeekIdx day ws (length ws) = i"
proof (rule findWeekIdx_eq)
  show "i < length ws" "ws ! i \<le> day" by fact+
  show "\<forall>j. i < j \<and> j < length ws \<longrightarrow> day < ws ! j"
  proof (intro allI impI)
    fix j assume j: "i < j \<and> j < length ws"
    then have "Suc i < length ws" by simp
    with assms have d: "day < ws ! Suc i" by simp
    show "day < ws ! j"
    proof (cases "j = Suc i")
      case True with d show ?thesis by simp
    next
      case False
      with j have "Suc i < j" by simp
      with assms(1) j have "ws ! Suc i < ws ! j" by (simp add: sorted_wrt_nth_less)
      with d show ?thesis by simp
    qed
  qed
qed

lemma even_formula:
  assumes "sorted_wrt (<) ws" "i < length ws" "ws ! i \<le> day"
    "Suc i < length ws \<longrightarrow> day < ws ! Suc i" "last ws \<le> e"
  shows "dayToEvenPercent day ws e
      = real i * (100 / real (length ws))
        + (real_of_int (day - ws ! i)
            / real_of_int ((if Suc i < length ws then ws ! Suc i else e + 1) - ws ! i))
          * (100 / real (length ws))"
    and "0 < (if Suc i < length ws then ws ! Suc i else e + 1) - ws ! i"
proof -
  have idx: "findWeekIdx day ws (length ws) = i" using assms(1-4) by (rule findWeekIdx_sorted)
  show pos: "0 < (if Suc i < length ws then ws ! Suc i else e + 1) - ws ! i"
  proof (cases "Suc i < length ws")
    case True
    with assms(1) have "ws ! i < ws ! Suc i" by (simp add: sorted_wrt_nth_less)
    with True show ?thesis by simp
  next
    case False
    from assms(2) have ne: "ws \<noteq> []" by auto
    from False assms(2) have "i = length ws - 1" by simp
    with ne have "ws ! i = last ws" by (simp add: last_conv_nth)
    with assms(5) False show ?thesis by simp
  qed
  from assms(2) have ne: "length ws \<noteq> 0" by auto
  show "dayToEvenPercent day ws e
      = real i * (100 / real (length ws))
        + (real_of_int (day - ws ! i)
            / real_of_int ((if Suc i < length ws then ws ! Suc i else e + 1) - ws ! i))
          * (100 / real (length ws))"
  proof (cases "Suc i < length ws")
    case True
    then have "i < length ws - 1" by simp
    with pos ne True show ?thesis
      by (simp add: dayToEvenPercent_def Let_def idx differenceInCalendarDays_def)
  next
    case False
    then have "\<not> i < length ws - 1" by simp
    with pos ne False show ?thesis
      by (simp add: dayToEvenPercent_def Let_def idx differenceInCalendarDays_def addDays_def)
  qed
qed


text \<open>
  Claim C3. Let the week starts be strictly increasing with the last one not after the
  end date (as the week starts of the configured interval are), and let week \<open>i\<close> be
  the week of \<open>day\<close>: its start is the last week start not after \<open>day\<close>. With
  \<open>weekWidth = 100 / numWeeks\<close> and the week's end the next week start, or for the
  final week the day after the end date, the mapper returns
  \<open>i * weekWidth + (daysIntoWeek / weekLengthInDays) * weekWidth\<close>. The week has a
  positive length, its start is mapped to \<open>i * weekWidth\<close>, and all its days are mapped
  into \<open>[i * weekWidth, (i + 1) * weekWidth)\<close>, whatever its number of days; in the
  final week this includes the end date.
\<close>

theorem even_mapper_week_share:
  assumes "sorted_wrt (<) ws" and "i < length ws" and "ws ! i \<le> day"
    and "Suc i < length ws \<longrightarrow> day < ws ! Suc i" and "last ws \<le> e"
  shows "let weekWidth = 100 / real (length ws);
             weekEnd = (if Suc i < length ws then ws ! Suc i else e + 1)
         in dayToEvenPercent day ws e
              = real i * weekWidth
                + (real_of_int (day - ws ! i) / real_of_int (weekEnd - ws ! i)) * weekWidth
          \<and> 0 < weekEnd - ws ! i
          \<and> dayToEvenPercent (ws ! i) ws e = real i * weekWidth
          \<and> real i * weekWidth \<le> dayToEvenPercent day ws e
          \<and> (day < weekEnd \<longrightarrow> dayToEvenPercent day ws e < real (Suc i) * weekWidth)"
proof -
  define weekWidth where "weekWidth = 100 / real (length ws)"
  define weekEnd where "weekEnd = (if Suc i < length ws then ws ! Suc i else e + 1)"
  define frac where "frac = real_of_int (day - ws ! i) / real_of_int (weekEnd - ws ! i)"
  have formula: "dayToEvenPercent day ws e = real i * weekWidth + frac * weekWidth"
    and pos: "0 < weekEnd - ws ! i"
    using even_formula [OF assms] by (simp_all add: weekWidth_def weekEnd_def frac_def)
  have "Suc i < length ws \<longrightarrow> ws ! i < ws ! Suc i"
    using assms(1) by (simp add: sorted_wrt_nth_less)
  then have "dayToEvenPercent (ws ! i) ws e = real i * weekWidth + 0 * weekWidth"
    using even_formula(1) [OF assms(1,2) _ _ assms(5), of "ws ! i"]
    by (simp add: weekWidth_def)
  then have start: "dayToEvenPercent (ws ! i) ws e = real i * weekWidth" by simp
  from assms(2) have w: "0 < weekWidth" by (auto simp: weekWidth_def)
  from assms(3) pos have f0: "0 \<le> frac" by (simp add: frac_def)
  with w formula have lower: "real i * weekWidth \<le> dayToEvenPercent day ws e" by simp
  have upper: "dayToEvenPercent day ws e < real (Suc i) * weekWidth" if "day < weekEnd"
  proof -
    from that pos have "frac < 1" by (simp add: frac_def)
    with w have "frac * weekWidth < 1 * weekWidth" by (simp only: mult_strict_right_mono)
    with formula show ?thesis by (simp add: algebra_simps)
  qed
  from formula pos start lower upper show ?thesis
    unfolding Let_def weekWidth_def [symmetric] weekEnd_def [symmetric] frac_def by blast
qed

theorem even_mapper_week_share_witness:
  "sorted_wrt (<) (mondayWeeks 2 17) \<and> 2 < length (mondayWeeks 2 17)
   \<and> mondayWeeks 2 17 ! 2 \<le> 17 \<and> last (mondayWeeks 2 17) \<le> 17
   \<and> dayToEvenPercent 17 (mondayWeeks 2 17) 17 = 2 * (100 / 3) + (3 / 4) * (100 / 3)
   \<and> dayToEvenPercent 14 (mondayWeeks 2 17) 17 = 2 * (100 / 3)
   \<and> dayToEvenPercent 17 (mondayWeeks 2 17) 17 < 100"
proof -
  have ws: "mondayWeeks 2 17 = [0, 7, 14]" by (simp add: mondayWeeks_def upto.simps)
  show ?thesis
    using even_mapper_week_share [of "[0, 7, 14]" 2 17 17]
    by (simp add: ws Let_def)
qed

section \<open>Degenerate ranges\<close>

lemma linear_degenerate: "t \<le> 0 \<Longrightarrow> dayToLinearPercent d s t = 0"
  by (simp add: dayToLinearPercent_def)

lemma even_degenerate: "dayToEvenPercent d [] e = 0"
  by (simp add: dayToEvenPercent_def)

lemma toPercent_degenerate:
  "P (endDate cfg) \<le> P (startDate cfg) \<Longrightarrow> toPercent P W cfg scale d = 0"
  by (simp add: toPercent_def weekStarts_def totalDays_def differenceInCalendarDays_def
      linear_degenerate even_degenerate)

text \<open>
  Claim C6. With \<open>totalDays \<le> 0\<close> the linear mapper returns 0 for every day, and with
  an empty week-start list the evenly-bucketed mapper returns 0 for every day. In the
  component, an end date not after the start date (equal dates give \<open>totalDays = 0\<close>)
  makes \<open>totalDays \<le> 0\<close> and the week-start list empty, so under either scale every
  positioned event of either team has percent 0: a value is returned, nothing fails.
\<close>

theorem degenerate_range_collapses_to_zero:
  "(t \<le> 0 \<longrightarrow> dayToLinearPercent d s t = 0)
   \<and> dayToEvenPercent d [] e = 0
   \<and> (P (endDate cfg) = P (startDate cfg) \<longrightarrow> totalDays P cfg = 0)
   \<and> (P (endDate cfg) \<le> P (startDate cfg) \<longrightarrow>
        totalDays P cfg \<le> 0 \<and> weekStarts P W cfg = [] \<and> toPercent P W cfg scale d = 0 \<and>
        (\<forall>p \<in> set (red (getEventPositions P evs (toPercent P W cfg scale)))
               \<union> set (blue (getEventPositions P evs (toPercent P W cfg scale))).
           percent p = 0))"
proof -
  have "percent p = 0"
    if "P (endDate cfg) \<le> P (startDate cfg)"
      and "p \<in> set (red (getEventPositions P evs (toPercent P W cfg scale)))
               \<union> set (blue (getEventPositions P evs (toPercent P W cfg scale)))" for p
    using that getEventPositions_percent [of p P evs "toPercent P W cfg scale"]
    by (simp add: toPercent_degenerate)
  then show ?thesis
    by (simp add: linear_degenerate even_degenerate toPercent_degenerate weekStarts_def
        totalDays_def differenceInCalendarDays_def)
qed

theorem degenerate_range_collapses_to_zero_witness:
  "(0::int) \<le> 0 \<and> dayToLinearPercent 5 3 0 = 0
   \<and> sampleParseISO (endDate degenerateConfig) = sampleParseISO (startDate degenerateConfig)
   \<and> totalDays sampleParseISO degenerateConfig = 0
   \<and> toPercent sampleParseISO mondayWeeks degenerateConfig weeks 5 = 0
   \<and> map percent (red (getEventPositions sampleParseISO
          [sampleEvent ''a'' ''2024-01-05'' Red 1, sampleEvent ''b'' ''2024-01-05'' Blue 2]
          (toPercent sampleParseISO mondayWeeks degenerateConfig weeks))) = [0]
   \<and> map percent (blue (getEventPositions sampleParseISO
          [sampleEvent ''a'' ''2024-01-05'' Red 1, sampleEvent ''b'' ''2024-01-05'' Blue 2]
          (toPercent sampleParseISO mondayWeeks degenerateConfig weeks))) = [0]"
proof -
  let ?evs = "[sampleEvent ''a'' ''2024-01-05'' Red 1, sampleEvent ''b'' ''2024-01-05'' Blue 2]"
  let ?f = "toPercent sampleParseISO mondayWeeks degenerateConfig weeks"
  note zero = degenerate_range_collapses_to_zero
    [of 0 5 3 0 sampleParseISO degenerateConfig mondayWeeks weeks ?evs]
  have reds: "map event (red (getEventPositions sampleParseISO ?evs ?f))
      = [sampleEvent ''a'' ''2024-01-05'' Red 1]"
    by (simp add: getEventPositions_red assignPositions_event comp_def
        sampleEvent_fields sampleParseISO_values)
  have blues: "map event (blue (getEventPositions sampleParseISO ?evs ?f))
      = [sampleEvent ''b'' ''2024-01-05'' Blue 2]"
    by (simp add: getEventPositions_blue assignPositions_event comp_def
        sampleEvent_fields sampleParseISO_values)
  from reds zero have r: "map percent (red (getEventPositions sampleParseISO ?evs ?f)) = [0]"
    by (auto simp: map_eq_Cons_conv degenerateConfig_range)
  from blues zero have b: "map percent (blue (getEventPositions sampleParseISO ?evs ?f)) = [0]"
    by (auto simp: map_eq_Cons_conv degenerateConfig_range)
  from zero r b show ?thesis by (simp add: degenerateConfig_range)
qed

section \<open>Cluster formation\<close>

lemma formClusters_snoc:
  "formClusters (tes @ [ev]) = addToClusters (formClusters tes) ev"
  by (simp add: formClusters_def)

lemma addToClusters_nonempty:
  "\<forall>c \<in> set cs. c \<noteq> [] \<Longrightarrow> \<forall>c \<in> set (addToClusters cs ev). c \<noteq> []"
  by (auto simp: addToClusters_def dest: in_set_butlastD)

lemma formClusters_nonempty: "\<forall>c \<in> set (formClusters tes). c \<noteq> []"
proof (induction tes rule: rev_induct)
  case Nil
  show ?case by (simp add: formClusters_def)
next
  case (snoc ev tes)
  then show ?case unfolding formClusters_snoc by (rule addToClusters_nonempty)
qed

lemma heads_addToClusters:
  assumes "\<forall>c \<in> set cs. c \<noteq> []"
  shows "map hd (addToClusters cs ev)
     = (if cs \<noteq> [] \<and> \<bar>percent ev - percent (hd (last cs))\<bar> < PROXIMITY_THRESHOLD_PCT
        then map hd cs else map hd cs @ [ev])"
proof (cases "cs \<noteq> [] \<and> \<bar>percent ev - percent (hd (last cs))\<bar> < PROXIMITY_THRESHOLD_PCT")
  case True
  then have ne: "cs \<noteq> []" by simp
  with assms have "last cs \<noteq> []" by simp
  then have "map hd (butlast cs @ [last cs @ [ev]]) = map hd (butlast cs @ [last cs])"
    by simp
  with ne True show ?thesis by (simp add: addToClusters_def)
next
  case False
  then show ?thesis by (auto simp: addToClusters_def)
qed

lemma addToClusters_within:
  assumes "\<forall>c \<in> set cs. c \<noteq> [] \<and> (\<forall>te \<in> set c. \<bar>percent te - percent (hd c)\<bar> < PROXIMITY_THRESHOLD_PCT)"
  shows "\<forall>c \<in> set (addToClusters cs ev).
           (\<forall>te \<in> set c. \<bar>percent te - percent (hd c)\<bar> < PROXIMITY_THRESHOLD_PCT)"
proof (cases "cs \<noteq> [] \<and> \<bar>percent ev - percent (hd (last cs))\<bar> < PROXIMITY_THRESHOLD_PCT")
  case True
  then have ne: "cs \<noteq> []" by simp
  with assms have l: "last cs \<noteq> []"
    and lw: "\<forall>te \<in> set (last cs). \<bar>percent te - percent (hd (last cs))\<bar> < PROXIMITY_THRESHOLD_PCT"
    by simp_all
  from l have h: "hd (last cs @ [ev]) = hd (last cs)" by simp
  have b: "\<forall>c \<in> set (butlast cs). (\<forall>te \<in> set c. \<bar>percent te - percent (hd c)\<bar> < PROXIMITY_THRESHOLD_PCT)"
    using assms by (auto dest: in_set_butlastD)
  from True have eq: "addToClusters cs ev = butlast cs @ [last cs @ [ev]]"
    by (simp add: addToClusters_def)
  show ?thesis unfolding eq using b lw True h by auto
next
  case False
  then have "addToClusters cs ev = cs @ [[ev]]" by (auto simp: addToClusters_def)
  with assms show ?thesis by (auto simp: PROXIMITY_THRESHOLD_PCT_def)
qed

lemma formClusters_within:
  "\<forall>c \<in> set (formClusters tes). \<forall>te \<in> set c.
      \<bar>percent te - percent (hd c)\<bar> < PROXIMITY_THRESHOLD_PCT"
proof (induction tes rule: rev_induct)
  case Nil
  show ?case by (simp add: formClusters_def)
next
  case (snoc ev tes)
  with formClusters_nonempty [of tes]
  have "\<forall>c \<in> set (formClusters tes). c \<noteq> [] \<and>
      (\<forall>te \<in> set c. \<bar>percent te - percent (hd c)\<bar> < PROXIMITY_THRESHOLD_PCT)"
    by blast
  then show ?case unfolding formClusters_snoc by (rule addToClusters_within)
qed

lemma formClusters_heads_apart:
  "Suc k < length (formClusters tes) \<Longrightarrow>
     PROXIMITY_THRESHOLD_PCT
       \<le> \<bar>percent (hd (formClusters tes ! Suc k)) - percent (hd (formClusters tes ! k))\<bar>"
proof (induction tes rule: rev_induct)
  case Nil
  then show ?case by (simp add: formClusters_def)
next
  case (snoc ev tes)
  let ?cs = "formClusters tes"
  let ?new = "addToClusters ?cs ev"
  have heads: "map hd ?new
     = (if ?cs \<noteq> [] \<and> \<bar>percent ev - percent (hd (last ?cs))\<bar> < PROXIMITY_THRESHOLD_PCT
        then map hd ?cs else map hd ?cs @ [ev])"
    using formClusters_nonempty by (rule heads_addToClusters)
  from snoc.prems have k: "Suc k < length ?new" by (simp add: formClusters_snoc)
  then have nth: "hd (?new ! Suc k) = map hd ?new ! Suc k" "hd (?new ! k) = map hd ?new ! k"
    by simp_all
  show ?case
  proof (cases "?cs \<noteq> [] \<and> \<bar>percent ev - percent (hd (last ?cs))\<bar> < PROXIMITY_THRESHOLD_PCT")
    case True
    with heads have h: "map hd ?new = map hd ?cs" by simp
    then have "length ?new = length ?cs" by (metis length_map)
    with k have k': "Suc k < length ?cs" by simp
    with snoc.IH have "PROXIMITY_THRESHOLD_PCT
       \<le> \<bar>percent (hd (?cs ! Suc k)) - percent (hd (?cs ! k))\<bar>" by simp
    with k' show ?thesis unfolding formClusters_snoc nth h by simp
  next
    case False
    with heads have h: "map hd ?new = map hd ?cs @ [ev]" by simp
    then have "length ?new = Suc (length ?cs)" by (metis length_map length_append_singleton)
    with k have k': "Suc k \<le> length ?cs" by simp
    show ?thesis
    proof (cases "Suc k < length ?cs")
      case True
      with snoc.IH have "PROXIMITY_THRESHOLD_PCT
         \<le> \<bar>percent (hd (?cs ! Suc k)) - percent (hd (?cs ! k))\<bar>" by simp
      with True show ?thesis unfolding formClusters_snoc nth h by (simp add: nth_append)
    next
      case last: False
      with k' have e: "Suc k = length ?cs" by simp
      then have ne: "?cs \<noteq> []" by auto
      from e have "k = length ?cs - 1" by simp
      with ne have "?cs ! k = last ?cs" by (simp add: last_conv_nth)
      moreover from ne False have "PROXIMITY_THRESHOLD_PCT \<le> \<bar>percent ev - percent (hd (last ?cs))\<bar>"
        by simp
      ultimately show ?thesis unfolding formClusters_snoc nth h using e
        by (simp add: nth_append)
    qed
  qed
qed

text \<open>
  Claim C1. Walking a team's events in order, the next event joins the open (last)
  cluster exactly when the absolute difference between its percentage and that of the
  open cluster's first member is below 1.5, and otherwise starts a new cluster. So the
  clusters are consecutive runs of the input, none is empty, every member is within
  1.5 of the first member of its cluster, and the first members of two successive
  clusters are at least 1.5 apart. For percentages 0, 1 and 2.9 the first two events
  form one cluster and the third starts a new one.
\<close>

theorem clusters_anchored_to_first_member:
  "formClusters (tes @ [ev])
     = (if formClusters tes \<noteq> []
           \<and> \<bar>percent ev - percent (hd (last (formClusters tes)))\<bar> < 1.5
        then butlast (formClusters tes) @ [last (formClusters tes) @ [ev]]
        else formClusters tes @ [[ev]])
   \<and> concat (formClusters tes) = tes
   \<and> (\<forall>c \<in> set (formClusters tes).
         c \<noteq> [] \<and> (\<forall>te \<in> set c. \<bar>percent te - percent (hd c)\<bar> < 1.5))
   \<and> (\<forall>k. Suc k < length (formClusters tes) \<longrightarrow>
         1.5 \<le> \<bar>percent (hd (formClusters tes ! Suc k)) - percent (hd (formClusters tes ! k))\<bar>)
   \<and> formClusters [\<lparr> event = a, percent = 0 \<rparr>, \<lparr> event = b, percent = 1 \<rparr>,
                    \<lparr> event = c, percent = 2.9 \<rparr>]
       = [[\<lparr> event = a, percent = 0 \<rparr>, \<lparr> event = b, percent = 1 \<rparr>],
          [\<lparr> event = c, percent = 2.9 \<rparr>]]"
proof -
  have step: "formClusters (tes @ [ev])
     = (if formClusters tes \<noteq> []
           \<and> \<bar>percent ev - percent (hd (last (formClusters tes)))\<bar> < 1.5
        then butlast (formClusters tes) @ [last (formClusters tes) @ [ev]]
        else formClusters tes @ [[ev]])"
    by (simp add: formClusters_snoc addToClusters_def PROXIMITY_THRESHOLD_PCT_def)
  have within: "\<forall>c \<in> set (formClusters tes).
         c \<noteq> [] \<and> (\<forall>te \<in> set c. \<bar>percent te - percent (hd c)\<bar> < 1.5)"
    using formClusters_nonempty [of tes] formClusters_within [of tes]
    by (simp add: PROXIMITY_THRESHOLD_PCT_def)
  have apart: "\<forall>k. Suc k < length (formClusters tes) \<longrightarrow>
         1.5 \<le> \<bar>percent (hd (formClusters tes ! Suc k)) - percent (hd (formClusters tes ! k))\<bar>"
    using formClusters_heads_apart [of _ tes] by (simp add: PROXIMITY_THRESHOLD_PCT_def)
  have example: "formClusters [\<lparr> event = a, percent = 0 \<rparr>, \<lparr> event = b, percent = 1 \<rparr>,
                    \<lparr> event = c, percent = 2.9 \<rparr>]
       = [[\<lparr> event = a, percent = 0 \<rparr>, \<lparr> event = b, percent = 1 \<rparr>],
          [\<lparr> event = c, percent = 2.9 \<rparr>]]"
    by (simp add: formClusters_def addToClusters_def PROXIMITY_THRESHOLD_PCT_def)
  from step concat_formClusters [of tes] within apart example show ?thesis by blast
qed

theorem clusters_anchored_to_first_member_witness:
  "formClusters [sampleTeamEvent ''a'' 0, sampleTeamEvent ''b'' 1]
     = [[sampleTeamEvent ''a'' 0, sampleTeamEvent ''b'' 1]]
   \<and> \<not> \<bar>percent (sampleTeamEvent ''c'' 2.9) - percent (sampleTeamEvent ''a'' 0)\<bar> < 1.5
   \<and> formClusters ([sampleTeamEvent ''a'' 0, sampleTeamEvent ''b'' 1] @ [sampleTeamEvent ''c'' 2.9])
     = [[sampleTeamEvent ''a'' 0, sampleTeamEvent ''b'' 1], [sampleTeamEvent ''c'' 2.9]]
   \<and> \<bar>percent (sampleTeamEvent ''b'' 1) - percent (sampleTeamEvent ''a'' 0)\<bar> < 1.5
   \<and> formClusters ([sampleTeamEvent ''a'' 0] @ [sampleTeamEvent ''b'' 1])
     = [[sampleTeamEvent ''a'' 0, sampleTeamEvent ''b'' 1]]"
proof -
  have first: "formClusters [sampleTeamEvent ''a'' 0] = [[sampleTeamEvent ''a'' 0]]"
    by (simp add: formClusters_def addToClusters_def)
  have p: "percent (sampleTeamEvent i q) = q" for i q by (simp add: sampleTeamEvent_def)
  from clusters_anchored_to_first_member
         [of "[sampleTeamEvent ''a'' 0]" "sampleTeamEvent ''b'' 1"]
  have two: "formClusters ([sampleTeamEvent ''a'' 0] @ [sampleTeamEvent ''b'' 1])
     = [[sampleTeamEvent ''a'' 0, sampleTeamEvent ''b'' 1]]"
    by (simp add: first p)
  from clusters_anchored_to_first_member
         [of "[sampleTeamEvent ''a'' 0, sampleTeamEvent ''b'' 1]" "sampleTeamEvent ''c'' 2.9"]
  have three: "formClusters ([sampleTeamEvent ''a'' 0, sampleTeamEvent ''b'' 1] @ [sampleTeamEvent ''c'' 2.9])
     = [[sampleTeamEvent ''a'' 0, sampleTeamEvent ''b'' 1], [sampleTeamEvent ''c'' 2.9]]"
    using two by (simp add: p)
  from two three show ?thesis by (simp add: p)
qed

section \<open>The resolver keeps every event\<close>

text \<open>
  Claim C10. For every event list and every mapper, the events of the red list are
  exactly the team-red events of the input and the events of the blue list exactly
  all the others, each in date order; together the two lists hold every input event
  exactly once (as multisets), and the event records in the output are the input
  records themselves. The function returns new lists and takes its input by value.
\<close>

theorem getEventPositions_keeps_every_event:
  "map event (red (getEventPositions P evs f))
     = filter (\<lambda>e. team e = Red) (sort_key (\<lambda>e. P (date e)) evs)
   \<and> map event (blue (getEventPositions P evs f))
     = filter (\<lambda>e. team e \<noteq> Red) (sort_key (\<lambda>e. P (date e)) evs)
   \<and> mset (map event (red (getEventPositions P evs f)))
       = filter_mset (\<lambda>e. team e = Red) (mset evs)
   \<and> mset (map event (blue (getEventPositions P evs f)))
       = filter_mset (\<lambda>e. team e \<noteq> Red) (mset evs)
   \<and> mset (map event (red (getEventPositions P evs f) @ blue (getEventPositions P evs f)))
       = mset evs
   \<and> length (red (getEventPositions P evs f)) + length (blue (getEventPositions P evs f))
       = length evs"
proof -
  let ?s = "sort_key (\<lambda>e. P (date e)) evs"
  have r: "map event (red (getEventPositions P evs f)) = filter (\<lambda>e. team e = Red) ?s"
    by (simp add: getEventPositions_def Let_def assignPositions_event filter_map comp_def)
  have b: "map event (blue (getEventPositions P evs f)) = filter (\<lambda>e. team e \<noteq> Red) ?s"
    by (simp add: getEventPositions_def Let_def assignPositions_event filter_map comp_def)
  have mr: "mset (map event (red (getEventPositions P evs f)))
       = filter_mset (\<lambda>e. team e = Red) (mset evs)"
    unfolding r by simp
  have mb: "mset (map event (blue (getEventPositions P evs f)))
       = filter_mset (\<lambda>e. team e \<noteq> Red) (mset evs)"
    unfolding b by simp
  have all: "mset (map event (red (getEventPositions P evs f) @ blue (getEventPositions P evs f)))
       = mset evs"
    using mr mb by simp
  have "length (map event (red (getEventPositions P evs f) @ blue (getEventPositions P evs f)))
       = length evs"
    using all by (metis size_mset)
  then have len: "length (red (getEventPositions P evs f)) + length (blue (getEventPositions P evs f))
       = length evs" by simp
  from r b mr mb all len show ?thesis by blast
qed

section \<open>Flags\<close>

text \<open>
  Claim C7, as amended. A truncated record has no flag. For a record that is not
  truncated the vertical offset is \<open>poleHeight + (lane - 1) * stackSpacing\<close>, with
  \<open>poleHeight = 30\<close>, \<open>stackSpacing = 32\<close> and \<open>lane\<close> the event's own lane (1 when it has
  none); \<open>stackIndex\<close> and \<open>clusterSize\<close> have no influence on the flag. The offsets of two
  flags whose events have lanes \<open>a\<close> and \<open>b\<close> differ by \<open>(a - b) * stackSpacing\<close>: they
  are different for different lanes, and exactly \<open>stackSpacing\<close> apart for adjacent
  lanes.
\<close>

theorem flag_offset_follows_lane:
  "poleHeight = 30 \<and> stackSpacing = 32
   \<and> (truncated p \<longrightarrow> renderEvent p = None)
   \<and> (\<not> truncated p \<longrightarrow>
        map_option flagOffset (renderEvent p)
          = Some (poleHeight
                  + ((case lane (event p) of None \<Rightarrow> 1 | Some l \<Rightarrow> l) - 1) * stackSpacing))
   \<and> renderEvent (p\<lparr>stackIndex := k, clusterSize := n\<rparr>) = renderEvent p
   \<and> (renderEvent p = Some fp \<and> renderEvent q = Some fq
        \<and> lane (event p) = Some a \<and> lane (event q) = Some b \<longrightarrow>
          flagOffset fp - flagOffset fq = (a - b) * stackSpacing
          \<and> (a \<noteq> b \<longrightarrow> flagOffset fp \<noteq> flagOffset fq)
          \<and> (\<bar>a - b\<bar> = 1 \<longrightarrow> \<bar>flagOffset fp - flagOffset fq\<bar> = stackSpacing))"
proof -
  have diff: "flagOffset fp - flagOffset fq = (a - b) * stackSpacing"
    if "renderEvent p = Some fp" "renderEvent q = Some fq"
      "lane (event p) = Some a" "lane (event q) = Some b"
    using that by (auto simp: renderEvent_def Let_def algebra_simps split: if_splits)
  have ne: "flagOffset fp \<noteq> flagOffset fq"
    if "flagOffset fp - flagOffset fq = (a - b) * stackSpacing" "a \<noteq> b"
    using that by (simp add: stackSpacing_def)
  have adj: "\<bar>flagOffset fp - flagOffset fq\<bar> = stackSpacing"
    if "flagOffset fp - flagOffset fq = (a - b) * stackSpacing" "\<bar>a - b\<bar> = 1"
    using that by (simp add: stackSpacing_def abs_mult)
  have rest: "poleHeight = 30 \<and> stackSpacing = 32
   \<and> (truncated p \<longrightarrow> renderEvent p = None)
   \<and> (\<not> truncated p \<longrightarrow>
        map_option flagOffset (renderEvent p)
          = Some (poleHeight
                  + ((case lane (event p) of None \<Rightarrow> 1 | Some l \<Rightarrow> l) - 1) * stackSpacing))
   \<and> renderEvent (p\<lparr>stackIndex := k, clusterSize := n\<rparr>) = renderEvent p"
    by (simp add: renderEvent_def Let_def poleHeight_def stackSpacing_def)
  from rest diff ne adj show ?thesis by blast
qed

lemma twoLanes_positions:
  "red (getEventPositions sampleParseISO (twoLanes a b)
          (toPercent sampleParseISO W sampleConfig days))
     = [\<lparr> event = sampleEvent ''a'' ''2024-01-02'' Red a, percent = 10, stackIndex = 0,
           clusterSize = 2, truncated = False \<rparr>,
        \<lparr> event = sampleEvent ''b'' ''2024-01-02'' Red b, percent = 10, stackIndex = 1,
           clusterSize = 2, truncated = False \<rparr>]"
  by (simp add: getEventPositions_red twoLanes_def sampleEvent_fields sampleParseISO_values
      sampleConfig_days assignPositions_def formClusters_def addToClusters_def
      positionInCluster_def enumerate_eq_zip CLUSTER_VISIBLE_LIMIT_def
      PROXIMITY_THRESHOLD_PCT_def)

theorem flag_offset_follows_lane_witness:
  "map truncated (red (getEventPositions sampleParseISO (twoLanes 1 2)
                        (toPercent sampleParseISO mondayWeeks sampleConfig days)))
     = [False, False]
   \<and> map clusterSize (red (getEventPositions sampleParseISO (twoLanes 1 2)
                        (toPercent sampleParseISO mondayWeeks sampleConfig days)))
     = [2, 2]
   \<and> map renderEvent (red (getEventPositions sampleParseISO (twoLanes 1 2)
                        (toPercent sampleParseISO mondayWeeks sampleConfig days)))
     = [Some \<lparr> flagOffset = 30, poleStyleHeight = 40, flagLeft = 10, flagZIndex = 5 \<rparr>,
        Some \<lparr> flagOffset = 62, poleStyleHeight = 72, flagLeft = 10, flagZIndex = 4 \<rparr>]
   \<and> \<bar>(1::int) - 2\<bar> = 1
   \<and> \<bar>flagOffset \<lparr> flagOffset = 30, poleStyleHeight = 40, flagLeft = 10, flagZIndex = 5 \<rparr>
        - flagOffset \<lparr> flagOffset = 62, poleStyleHeight = 72, flagLeft = 10, flagZIndex = 4 \<rparr>\<bar>
       = stackSpacing"
proof -
  let ?p = "\<lparr> event = sampleEvent ''a'' ''2024-01-02'' Red 1, percent = 10, stackIndex = 0,
            clusterSize = 2, truncated = False \<rparr>"
  let ?q = "\<lparr> event = sampleEvent ''b'' ''2024-01-02'' Red 2, percent = 10, stackIndex = 1,
            clusterSize = 2, truncated = False \<rparr>"
  let ?fp = "\<lparr> flagOffset = 30, poleStyleHeight = 40, flagLeft = 10, flagZIndex = 5 \<rparr>"
  let ?fq = "\<lparr> flagOffset = 62, poleStyleHeight = 72, flagLeft = 10, flagZIndex = 4 \<rparr>"
  have p: "renderEvent ?p = Some ?fp" and q: "renderEvent ?q = Some ?fq"
    by (simp_all add: renderEvent_def sampleEvent_fields poleHeight_def stackSpacing_def)
  have "\<bar>flagOffset ?fp - flagOffset ?fq\<bar> = stackSpacing"
    using flag_offset_follows_lane
      [where p = ?p and q = ?q and fp = ?fp and fq = ?fq and a = 1 and b = 2 and k = 0 and n = 2]
      p q
    by (simp add: sampleEvent_fields)
  with p q show ?thesis by (simp add: twoLanes_positions)
qed

text \<open>
  Claim C7 as stated fails: two events of one cluster (same day, cluster size 2) on
  lanes 1 and 3 get the offsets 30 and 94, which differ by twice \<open>stackSpacing\<close>.
\<close>

theorem flag_offset_exactly_stackSpacing_counterexample:
  "map clusterSize (red (getEventPositions sampleParseISO (twoLanes 1 3)
                        (toPercent sampleParseISO mondayWeeks sampleConfig days)))
     = [2, 2]
   \<and> map (\<lambda>p. lane (event p)) (red (getEventPositions sampleParseISO (twoLanes 1 3)
                        (toPercent sampleParseISO mondayWeeks sampleConfig days)))
     = [Some 1, Some 3]
   \<and> map (\<lambda>p. map_option flagOffset (renderEvent p))
        (red (getEventPositions sampleParseISO (twoLanes 1 3)
               (toPercent sampleParseISO mondayWeeks sampleConfig days)))
     = [Some 30, Some 94]
   \<and> \<bar>(30::int) - 94\<bar> \<noteq> stackSpacing"
  by (simp add: twoLanes_positions sampleEvent_fields renderEvent_def poleHeight_def
      stackSpacing_def)

section \<open>Stacking, truncation and overflow badges\<close>

lemma stack_cluster_by_index:
  "map (positionInCluster n) (enumerate 0 c)
     = map (\<lambda>i. \<lparr> event = event (c ! i), percent = percent (c ! i), stackIndex = i,
                   clusterSize = n, truncated = (3 < n \<and> 3 \<le> i) \<rparr>) [0..<length c]"
  by (rule nth_equalityI)
     (simp_all add: positionInCluster_def nth_enumerate_eq CLUSTER_VISIBLE_LIMIT_def)

lemma assignPositions_by_index:
  "assignPositions tes
     = concat (map (\<lambda>c. map (\<lambda>i. \<lparr> event = event (c ! i), percent = percent (c ! i),
                                    stackIndex = i, clusterSize = length c,
                                    truncated = (3 < length c \<and> 3 \<le> i) \<rparr>) [0..<length c])
                   (formClusters tes))"
  by (simp add: assignPositions_def stack_cluster_by_index)

lemma five_in_one_cluster:
  assumes "\<bar>percent t1 - percent t0\<bar> < 1.5" "\<bar>percent t2 - percent t0\<bar> < 1.5"
    "\<bar>percent t3 - percent t0\<bar> < 1.5" "\<bar>percent t4 - percent t0\<bar> < 1.5"
  shows "formClusters [t0, t1, t2, t3, t4] = [[t0, t1, t2, t3, t4]]"
  using assms by (simp add: formClusters_def addToClusters_def PROXIMITY_THRESHOLD_PCT_def)

lemma five_positions:
  assumes "\<bar>percent t1 - percent t0\<bar> < 1.5" "\<bar>percent t2 - percent t0\<bar> < 1.5"
    "\<bar>percent t3 - percent t0\<bar> < 1.5" "\<bar>percent t4 - percent t0\<bar> < 1.5"
  shows "assignPositions [t0, t1, t2, t3, t4]
     = [\<lparr> event = event t0, percent = percent t0, stackIndex = 0, clusterSize = 5,
           truncated = False \<rparr>,
        \<lparr> event = event t1, percent = percent t1, stackIndex = 1, clusterSize = 5,
           truncated = False \<rparr>,
        \<lparr> event = event t2, percent = percent t2, stackIndex = 2, clusterSize = 5,
           truncated = False \<rparr>,
        \<lparr> event = event t3, percent = percent t3, stackIndex = 3, clusterSize = 5,
           truncated = True \<rparr>,
        \<lparr> event = event t4, percent = percent t4, stackIndex = 4, clusterSize = 5,
           truncated = True \<rparr>]"
  by (simp add: assignPositions_def five_in_one_cluster [OF assms] positionInCluster_def
      enumerate_eq_zip CLUSTER_VISIBLE_LIMIT_def upt_rec)

lemma five_overflow:
  assumes "\<bar>percent t1 - percent t0\<bar> < 1.5" "\<bar>percent t2 - percent t0\<bar> < 1.5"
    "\<bar>percent t3 - percent t0\<bar> < 1.5" "\<bar>percent t4 - percent t0\<bar> < 1.5"
  shows "overflowLoop (assignPositions [t0, t1, t2, t3, t4]) {}
           (assignPositions [t0, t1, t2, t3, t4])
     = (if date (event t3) = date (event t4)
        then [\<lparr> overflowPercent = percent t3, overflowCount = 2, overflowOffset = 126,
                 overflowEvents = [event t3, event t4] \<rparr>]
        else [\<lparr> overflowPercent = percent t3, overflowCount = 1, overflowOffset = 126,
                 overflowEvents = [event t3] \<rparr>,
              \<lparr> overflowPercent = percent t4, overflowCount = 1, overflowOffset = 126,
                 overflowEvents = [event t4] \<rparr>])"
  by (simp add: five_positions [OF assms] Let_def poleHeight_def stackSpacing_def
      CLUSTER_VISIBLE_LIMIT_def)

text \<open>
  The clustering loop read from the front of the list: the first cluster is the first
  event with the longest run of following events that lie within the threshold of it,
  and the other clusters are those of the remaining events.
\<close>

lemma foldl_addToClusters_prefix:
  "c \<noteq> [] \<Longrightarrow> foldl addToClusters (cs @ [c]) ys = cs @ foldl addToClusters [c] ys"
proof (induction ys arbitrary: cs c)
  case Nil
  show ?case by simp
next
  case (Cons y ys)
  show ?case
  proof (cases "\<bar>percent y - percent (hd c)\<bar> < PROXIMITY_THRESHOLD_PCT")
    case True
    then have "addToClusters (cs @ [c]) y = cs @ [c @ [y]]"
      and "addToClusters [c] y = [c @ [y]]"
      by (simp_all add: addToClusters_def)
    moreover have "foldl addToClusters (cs @ [c @ [y]]) ys
        = cs @ foldl addToClusters [c @ [y]] ys"
      by (rule Cons.IH) simp
    ultimately show ?thesis by simp
  next
    case False
    then have a: "addToClusters (cs @ [c]) y = (cs @ [c]) @ [[y]]"
      and b: "addToClusters [c] y = [c] @ [[y]]"
      by (simp_all add: addToClusters_def)
    have "foldl addToClusters ((cs @ [c]) @ [[y]]) ys
        = (cs @ [c]) @ foldl addToClusters [[y]] ys"
      by (rule Cons.IH) simp
    moreover have "foldl addToClusters ([c] @ [[y]]) ys = [c] @ foldl addToClusters [[y]] ys"
      by (rule Cons.IH) simp
    ultimately show ?thesis by (simp only: foldl_Cons a b append_assoc)
  qed
qed

lemma foldl_addToClusters_open:
  "c \<noteq> [] \<Longrightarrow> foldl addToClusters [c] ys
     = (c @ takeWhile (\<lambda>y. \<bar>percent y - percent (hd c)\<bar> < PROXIMITY_THRESHOLD_PCT) ys)
       # formClusters (dropWhile (\<lambda>y. \<bar>percent y - percent (hd c)\<bar> < PROXIMITY_THRESHOLD_PCT) ys)"
proof (induction ys arbitrary: c)
  case Nil
  show ?case by (simp add: formClusters_def)
next
  case (Cons y ys)
  show ?case
  proof (cases "\<bar>percent y - percent (hd c)\<bar> < PROXIMITY_THRESHOLD_PCT")
    case True
    then have "addToClusters [c] y = [c @ [y]]" by (simp add: addToClusters_def)
    moreover from Cons.prems have "hd (c @ [y]) = hd c" by simp
    moreover have "foldl addToClusters [c @ [y]] ys
     = ((c @ [y]) @ takeWhile (\<lambda>z. \<bar>percent z - percent (hd (c @ [y]))\<bar> < PROXIMITY_THRESHOLD_PCT) ys)
       # formClusters (dropWhile (\<lambda>z. \<bar>percent z - percent (hd (c @ [y]))\<bar> < PROXIMITY_THRESHOLD_PCT) ys)"
      by (rule Cons.IH) simp
    ultimately show ?thesis using True by simp
  next
    case False
    then have "addToClusters [c] y = [c] @ [[y]]" by (simp add: addToClusters_def)
    moreover have "foldl addToClusters ([c] @ [[y]]) ys = [c] @ foldl addToClusters [[y]] ys"
      by (rule foldl_addToClusters_prefix) simp
    moreover have "formClusters (y # ys) = foldl addToClusters [[y]] ys"
      by (simp add: formClusters_def addToClusters_def)
    ultimately show ?thesis using False by simp
  qed
qed

lemma formClusters_Cons:
  "formClusters (x # xs)
     = (x # takeWhile (\<lambda>y. \<bar>percent y - percent x\<bar> < PROXIMITY_THRESHOLD_PCT) xs)
       # formClusters (dropWhile (\<lambda>y. \<bar>percent y - percent x\<bar> < PROXIMITY_THRESHOLD_PCT) xs)"
proof -
  have "formClusters (x # xs) = foldl addToClusters [[x]] xs"
    by (simp add: formClusters_def addToClusters_def)
  then show ?thesis using foldl_addToClusters_open [of "[x]" xs] by simp
qed

text \<open>
  A team's events are in date order and their percentage is a function of the date,
  so all events of one date lie in the same cluster: a date of one cluster is not a
  date of another one.
\<close>

lemma first_cluster_dates:
  assumes sorted: "sorted (map (\<lambda>te. K (date (event te))) (x # xs))"
    and func: "\<forall>te \<in> set (x # xs). percent te = g (K (date (event te)))"
    and y: "y \<in> set (x # takeWhile (\<lambda>y. \<bar>percent y - percent x\<bar> < PROXIMITY_THRESHOLD_PCT) xs)"
    and w: "w \<in> set (dropWhile (\<lambda>y. \<bar>percent y - percent x\<bar> < PROXIMITY_THRESHOLD_PCT) xs)"
  shows "date (event y) \<noteq> date (event w)"
proof
  assume same: "date (event y) = date (event w)"
  let ?N = "\<lambda>y. \<bar>percent y - percent x\<bar> < PROXIMITY_THRESHOLD_PCT"
  let ?k = "\<lambda>te. K (date (event te))"
  let ?r = "dropWhile ?N xs"
  from w have ne: "?r \<noteq> []" by (cases ?r) simp_all
  then have far: "\<not> ?N (hd ?r)" by (rule hd_dropWhile)
  from ne have z: "hd ?r \<in> set ?r" by simp
  have split: "x # xs = (x # takeWhile ?N xs) @ ?r" by simp
  from sorted have s: "sorted (map ?k ((x # takeWhile ?N xs) @ ?r))"
    by (simp only: split [symmetric])
  then have across: "\<forall>a \<in> set (x # takeWhile ?N xs). \<forall>b \<in> set ?r. ?k a \<le> ?k b"
    and rs: "sorted (map ?k ?r)"
    unfolding map_append sorted_append by auto
  from across y z have yz: "?k y \<le> ?k (hd ?r)" by blast
  from ne obtain z' r' where r: "?r = z' # r'" by (cases ?r) auto
  with rs w have zw: "?k (hd ?r) \<le> ?k w" by auto
  from same yz zw have kz: "?k (hd ?r) = ?k y" by simp
  from z have "hd ?r \<in> set (x # xs)" by (auto dest: set_dropWhileD)
  with func have pz: "percent (hd ?r) = g (?k (hd ?r))" by blast
  from y have "y \<in> set (x # xs)" by (auto dest: set_takeWhileD)
  with func have py: "percent y = g (?k y)" by blast
  from y have "?N y" by (auto simp: PROXIMITY_THRESHOLD_PCT_def dest: set_takeWhileD)
  with pz py kz have "?N (hd ?r)" by simp
  with far show False by contradiction
qed

lemma clusters_have_their_own_dates:
  assumes "sorted (map (\<lambda>te. K (date (event te))) tes)"
    and "\<forall>te \<in> set tes. percent te = g (K (date (event te)))"
    and "formClusters tes = cs1 @ [c] @ cs2"
  shows "\<forall>x \<in> set (concat cs1) \<union> set (concat cs2). \<forall>y \<in> set c.
           date (event x) \<noteq> date (event y)"
  using assms
proof (induction cs1 arbitrary: tes)
  case Nil
  from Nil.prems(3) have "tes \<noteq> []" by (auto simp: formClusters_def)
  then obtain x xs where tes: "tes = x # xs" by (cases tes) auto
  let ?N = "\<lambda>y. \<bar>percent y - percent x\<bar> < PROXIMITY_THRESHOLD_PCT"
  from Nil.prems(3) have c: "c = x # takeWhile ?N xs"
    and cs2: "cs2 = formClusters (dropWhile ?N xs)"
    unfolding tes formClusters_Cons by simp_all
  from cs2 have rest: "concat cs2 = dropWhile ?N xs" by (simp add: concat_formClusters)
  show ?case
  proof (intro ballI)
    fix w y assume "w \<in> set (concat []) \<union> set (concat cs2)" and "y \<in> set c"
    then have "w \<in> set (dropWhile ?N xs)" and "y \<in> set (x # takeWhile ?N xs)"
      using rest c by simp_all
    with Nil.prems(1,2) have "date (event y) \<noteq> date (event w)"
      unfolding tes by (intro first_cluster_dates [where K = K and g = g and x = x and xs = xs])
    then show "date (event w) \<noteq> date (event y)" by simp
  qed
next
  case (Cons c0 cs1)
  from Cons.prems(3) have "tes \<noteq> []" by (auto simp: formClusters_def)
  then obtain x xs where tes: "tes = x # xs" by (cases tes) auto
  let ?N = "\<lambda>y. \<bar>percent y - percent x\<bar> < PROXIMITY_THRESHOLD_PCT"
  let ?k = "\<lambda>te. K (date (event te))"
  let ?r = "dropWhile ?N xs"
  from Cons.prems(3) have c0: "c0 = x # takeWhile ?N xs"
    and later: "formClusters ?r = cs1 @ [c] @ cs2"
    unfolding tes formClusters_Cons by simp_all
  have split: "xs = takeWhile ?N xs @ ?r" by simp
  from Cons.prems(1) have "sorted (map ?k xs)" unfolding tes by simp
  then have "sorted (map ?k (takeWhile ?N xs @ ?r))" by (simp only: split [symmetric])
  then have sr: "sorted (map ?k ?r)" unfolding map_append sorted_append by simp
  from Cons.prems(2) have fr: "\<forall>te \<in> set ?r. percent te = g (?k te)"
    unfolding tes by (auto dest: set_dropWhileD)
  from sr fr later
  have ih: "\<forall>w \<in> set (concat cs1) \<union> set (concat cs2). \<forall>y \<in> set c.
           date (event w) \<noteq> date (event y)"
    by (rule Cons.IH)
  have "concat (formClusters ?r) = ?r" by (rule concat_formClusters)
  with later have inr: "set c \<subseteq> set ?r" by (metis concat_append concat.simps(2) set_append Un_upper1 Un_upper2 subset_trans)
  have first: "\<forall>w \<in> set c0. \<forall>y \<in> set c. date (event w) \<noteq> date (event y)"
  proof (intro ballI)
    fix w y assume "w \<in> set c0" and "y \<in> set c"
    with c0 inr have "w \<in> set (x # takeWhile ?N xs)" and "y \<in> set ?r" by auto
    with Cons.prems(1,2) show "date (event w) \<noteq> date (event y)"
      unfolding tes by (intro first_cluster_dates [where K = K and g = g and x = x and xs = xs])
  qed
  from first ih show ?case by auto
qed

text \<open>
  The overflow loop skips the records that are not truncated, gives one descriptor
  for every date of a truncated record, and its descriptors for a set of dates are
  those it gives for the records of these dates.
\<close>

lemma overflowLoop_truncated_only:
  "overflowLoop team_list seen rest = overflowLoop team_list seen (filter truncated rest)"
  by (induction rest arbitrary: seen) (simp_all add: Let_def)

lemma overflowLoop_unseen_date:
  "\<forall>p \<in> set rest. date (event p) \<noteq> d
     \<Longrightarrow> overflowLoop team_list (insert d seen) rest = overflowLoop team_list seen rest"
proof (induction rest arbitrary: seen)
  case Nil
  show ?case by simp
next
  case (Cons p rest)
  then have ih: "overflowLoop team_list (insert d s) rest = overflowLoop team_list s rest" for s
    by simp
  from Cons.prems have "date (event p) \<noteq> d" by simp
  then show ?case
    using ih [of seen] ih [of "insert (date (event p)) seen"]
    by (simp add: Let_def insert_commute)
qed

lemma overflowLoop_of_dates:
  assumes "set rest \<subseteq> set team_list"
  shows "filter (\<lambda>ov. \<exists>e \<in> set (overflowEvents ov). date e \<in> D)
           (overflowLoop team_list seen rest)
       = overflowLoop team_list seen (filter (\<lambda>p. date (event p) \<in> D) rest)"
  using assms
proof (induction rest arbitrary: seen)
  case Nil
  show ?case by simp
next
  case (Cons p rest)
  then have sub: "set rest \<subseteq> set team_list" and mem: "p \<in> set team_list" by simp_all
  note ih = Cons.IH [OF sub]
  show ?case
  proof (cases "\<not> truncated p \<or> date (event p) \<in> seen")
    case True
    then show ?thesis using ih [of seen] by auto
  next
    case False
    let ?hidden = "filter (\<lambda>r. truncated r \<and> date (event r) = date (event p)) team_list"
    from False mem have "p \<in> set ?hidden" by simp
    then have touched: "(\<exists>e \<in> set (map event ?hidden). date e \<in> D) \<longleftrightarrow> date (event p) \<in> D"
      by auto
    show ?thesis
    proof (cases "date (event p) \<in> D")
      case True
      with False touched show ?thesis
        using ih [of "insert (date (event p)) seen"] by (simp add: Let_def)
    next
      case out: False
      then have "\<forall>q \<in> set (filter (\<lambda>p. date (event p) \<in> D) rest).
                   date (event q) \<noteq> date (event p)"
        by auto
      then have "overflowLoop team_list (insert (date (event p)) seen)
                   (filter (\<lambda>p. date (event p) \<in> D) rest)
               = overflowLoop team_list seen (filter (\<lambda>p. date (event p) \<in> D) rest)"
        by (rule overflowLoop_unseen_date)
      with False out touched show ?thesis
        using ih [of "insert (date (event p)) seen"] by (simp add: Let_def)
    qed
  qed
qed

lemma stacked_events:
  "map (event \<circ> positionInCluster n) (enumerate k c) = map event c"
  by (induction c arbitrary: k) (simp_all add: positionInCluster_def)

lemma stacked_clusters_events:
  "map event (concat (map (\<lambda>c. map (positionInCluster (length c)) (enumerate 0 c)) cs))
     = map event (concat cs)"
  by (induction cs) (simp_all add: stacked_events)

lemma cluster_of_five_positions:
  assumes "formClusters tes = cs1 @ [[c0, c1, c2, c3, c4]] @ cs2"
  shows "assignPositions tes
     = concat (map (\<lambda>c. map (positionInCluster (length c)) (enumerate 0 c)) cs1)
       @ [\<lparr> event = event c0, percent = percent c0, stackIndex = 0, clusterSize = 5,
             truncated = False \<rparr>,
          \<lparr> event = event c1, percent = percent c1, stackIndex = 1, clusterSize = 5,
             truncated = False \<rparr>,
          \<lparr> event = event c2, percent = percent c2, stackIndex = 2, clusterSize = 5,
             truncated = False \<rparr>,
          \<lparr> event = event c3, percent = percent c3, stackIndex = 3, clusterSize = 5,
             truncated = True \<rparr>,
          \<lparr> event = event c4, percent = percent c4, stackIndex = 4, clusterSize = 5,
             truncated = True \<rparr>]
       @ concat (map (\<lambda>c. map (positionInCluster (length c)) (enumerate 0 c)) cs2)"
  by (simp add: assignPositions_def assms positionInCluster_def enumerate_eq_zip
      CLUSTER_VISIBLE_LIMIT_def upt_rec)

lemma cluster_of_five_overflow:
  assumes sorted: "sorted (map (\<lambda>te. K (date (event te))) tes)"
    and func: "\<forall>te \<in> set tes. percent te = g (K (date (event te)))"
    and clusters: "formClusters tes = cs1 @ [[c0, c1, c2, c3, c4]] @ cs2"
  shows "filter (\<lambda>ov. \<exists>e \<in> set (overflowEvents ov).
                    date e \<in> {date (event c3), date (event c4)})
           (overflowLoop (assignPositions tes) {} (assignPositions tes))
     = (if date (event c3) = date (event c4)
        then [\<lparr> overflowPercent = percent c3, overflowCount = 2, overflowOffset = 126,
                 overflowEvents = [event c3, event c4] \<rparr>]
        else [\<lparr> overflowPercent = percent c3, overflowCount = 1, overflowOffset = 126,
                 overflowEvents = [event c3] \<rparr>,
              \<lparr> overflowPercent = percent c4, overflowCount = 1, overflowOffset = 126,
                 overflowEvents = [event c4] \<rparr>])"
proof -
  let ?stack = "\<lambda>c. map (positionInCluster (length c)) (enumerate 0 c)"
  let ?before = "concat (map ?stack cs1)"
  let ?after = "concat (map ?stack cs2)"
  let ?r0 = "\<lparr> event = event c0, percent = percent c0, stackIndex = 0, clusterSize = 5,
               truncated = False \<rparr>"
  let ?r1 = "\<lparr> event = event c1, percent = percent c1, stackIndex = 1, clusterSize = 5,
               truncated = False \<rparr>"
  let ?r2 = "\<lparr> event = event c2, percent = percent c2, stackIndex = 2, clusterSize = 5,
               truncated = False \<rparr>"
  let ?r3 = "\<lparr> event = event c3, percent = percent c3, stackIndex = 3, clusterSize = 5,
               truncated = True \<rparr>"
  let ?r4 = "\<lparr> event = event c4, percent = percent c4, stackIndex = 4, clusterSize = 5,
               truncated = True \<rparr>"
  let ?ps = "?before @ [?r0, ?r1, ?r2, ?r3, ?r4] @ ?after"
  let ?D = "{date (event c3), date (event c4)}"
  have ps: "assignPositions tes = ?ps"
    using clusters by (rule cluster_of_five_positions)
  note own = clusters_have_their_own_dates [OF sorted func clusters]
  have outside: "date (event p) \<notin> ?D" if "p \<in> set ?before \<union> set ?after" for p
  proof -
    from that have "event p \<in> event ` set ?before \<union> event ` set ?after" by blast
    then have "event p \<in> set (map event ?before) \<union> set (map event ?after)"
      by (simp only: set_map)
    then have "event p \<in> set (map event (concat cs1)) \<union> set (map event (concat cs2))"
      by (simp only: stacked_clusters_events)
    then obtain x where "x \<in> set (concat cs1) \<union> set (concat cs2)" and "event p = event x"
      by auto
    with own have "date (event p) \<noteq> date (event c3)" and "date (event p) \<noteq> date (event c4)"
      by auto
    then show ?thesis by simp
  qed
  then have none_before: "filter (\<lambda>p. date (event p) \<in> ?D) ?before = []"
    and none_after: "filter (\<lambda>p. date (event p) \<in> ?D) ?after = []"
    by (auto simp: filter_empty_conv)
  have hidden_before: "filter (\<lambda>r. truncated r \<and> date (event r) = d) ?before = []"
    and hidden_after: "filter (\<lambda>r. truncated r \<and> date (event r) = d) ?after = []"
    if "d \<in> ?D" for d
    using that outside by (auto simp: filter_empty_conv)
  have "filter (\<lambda>ov. \<exists>e \<in> set (overflowEvents ov). date e \<in> ?D) (overflowLoop ?ps {} ?ps)
      = overflowLoop ?ps {} (filter (\<lambda>p. date (event p) \<in> ?D) ?ps)"
    by (rule overflowLoop_of_dates) simp
  also have "\<dots> = overflowLoop ?ps {} (filter truncated (filter (\<lambda>p. date (event p) \<in> ?D) ?ps))"
    by (rule overflowLoop_truncated_only)
  also have "filter truncated (filter (\<lambda>p. date (event p) \<in> ?D) ?ps) = [?r3, ?r4]"
  proof -
    have "filter (\<lambda>p. date (event p) \<in> ?D) ?ps
        = filter (\<lambda>p. date (event p) \<in> ?D) [?r0, ?r1, ?r2, ?r3, ?r4]"
      by (simp only: filter_append none_before none_after append_Nil append_Nil2)
    then show ?thesis by simp
  qed
  also have "overflowLoop ?ps {} [?r3, ?r4]
     = (if date (event c3) = date (event c4)
        then [\<lparr> overflowPercent = percent c3, overflowCount = 2, overflowOffset = 126,
                 overflowEvents = [event c3, event c4] \<rparr>]
        else [\<lparr> overflowPercent = percent c3, overflowCount = 1, overflowOffset = 126,
                 overflowEvents = [event c3] \<rparr>,
              \<lparr> overflowPercent = percent c4, overflowCount = 1, overflowOffset = 126,
                 overflowEvents = [event c4] \<rparr>])"
  proof -
    have hidden: "filter (\<lambda>r. truncated r \<and> date (event r) = d) ?ps
        = filter (\<lambda>r. truncated r \<and> date (event r) = d) [?r0, ?r1, ?r2, ?r3, ?r4]"
      if "d \<in> ?D" for d
      by (simp only: filter_append hidden_before [OF that] hidden_after [OF that]
          append_Nil append_Nil2)
    have h3: "filter (\<lambda>r. truncated r \<and> date (event r) = date (event c3)) ?ps
        = (if date (event c3) = date (event c4) then [?r3, ?r4] else [?r3])"
      by (subst hidden) auto
    have h4: "filter (\<lambda>r. truncated r \<and> date (event r) = date (event c4)) ?ps
        = (if date (event c3) = date (event c4) then [?r3, ?r4] else [?r4])"
      by (subst hidden) auto
    have "overflowLoop ?ps {} [?r3, ?r4]
      = \<lparr> overflowPercent = percent c3,
           overflowCount = length (filter (\<lambda>r. truncated r \<and> date (event r) = date (event c3)) ?ps),
           overflowOffset = 126,
           overflowEvents = map event (filter (\<lambda>r. truncated r \<and> date (event r) = date (event c3)) ?ps) \<rparr>
        # (if date (event c4) = date (event c3) then []
           else [\<lparr> overflowPercent = percent c4,
                   overflowCount = length (filter (\<lambda>r. truncated r \<and> date (event r) = date (event c4)) ?ps),
                   overflowOffset = 126,
                   overflowEvents = map event (filter (\<lambda>r. truncated r \<and> date (event r) = date (event c4)) ?ps) \<rparr>])"
      by (simp add: Let_def poleHeight_def stackSpacing_def CLUSTER_VISIBLE_LIMIT_def
          del: filter_append)
    then show ?thesis unfolding h3 h4 by auto
  qed
  finally show ?thesis unfolding ps .
qed

lemma overflowLoop_length:
  "length (overflowLoop team_list seen rest)
     = card ((\<lambda>p. date (event p)) ` {p \<in> set rest. truncated p} - seen)"
proof (induction rest arbitrary: seen)
  case Nil
  show ?case by simp
next
  case (Cons p rest)
  let ?H = "\<lambda>xs. (\<lambda>p. date (event p)) ` {p \<in> set xs. truncated p}"
  show ?case
  proof (cases "\<not> truncated p \<or> date (event p) \<in> seen")
    case True
    then have "?H (p # rest) - seen = ?H rest - seen" by auto
    with True Cons.IH [of seen] show ?thesis by simp
  next
    case False
    let ?d = "date (event p)"
    have fin: "finite (?H rest - insert ?d seen)" by simp
    from False have "?H (p # rest) - seen = insert ?d (?H rest - insert ?d seen)" by auto
    moreover have "?d \<notin> ?H rest - insert ?d seen" by simp
    ultimately have "card (?H (p # rest) - seen) = Suc (card (?H rest - insert ?d seen))"
      using fin by simp
    with False Cons.IH [of "insert ?d seen"] show ?thesis by (simp add: Let_def)
  qed
qed

lemma team_events_sorted:
  "sorted (map (\<lambda>te. P (date (event te)))
     (filter Q (map (\<lambda>e. \<lparr> event = e, percent = f (P (date e)) \<rparr>)
                    (sort_key (\<lambda>e. P (date e)) evs))))"
proof -
  have "sorted (map (\<lambda>e. P (date e)) (sort_key (\<lambda>e. P (date e)) evs))"
    by (rule sorted_sort_key)
  then have "sorted (map (\<lambda>te. P (date (event te)))
      (map (\<lambda>e. \<lparr> event = e, percent = f (P (date e)) \<rparr>) (sort_key (\<lambda>e. P (date e)) evs)))"
    by (simp add: comp_def)
  then show ?thesis by (rule sorted_filter)
qed

lemma team_events_percent:
  "\<forall>te \<in> set (filter Q (map (\<lambda>e. \<lparr> event = e, percent = f (P (date e)) \<rparr>) sorted_events)).
     percent te = f (P (date (event te)))"
  by auto

lemma team_cluster_of_five:
  assumes "formClusters (filter Q (map (\<lambda>e. \<lparr> event = e, percent = f (P (date e)) \<rparr>)
                                       (sort_key (\<lambda>e. P (date e)) evs)))
             = cs1 @ [[c0, c1, c2, c3, c4]] @ cs2"
    and "team_list = assignPositions (filter Q (map (\<lambda>e. \<lparr> event = e, percent = f (P (date e)) \<rparr>)
                                       (sort_key (\<lambda>e. P (date e)) evs)))"
  shows "team_list
     = concat (map (\<lambda>c. map (positionInCluster (length c)) (enumerate 0 c)) cs1)
       @ [\<lparr> event = event c0, percent = percent c0, stackIndex = 0, clusterSize = 5,
             truncated = False \<rparr>,
          \<lparr> event = event c1, percent = percent c1, stackIndex = 1, clusterSize = 5,
             truncated = False \<rparr>,
          \<lparr> event = event c2, percent = percent c2, stackIndex = 2, clusterSize = 5,
             truncated = False \<rparr>,
          \<lparr> event = event c3, percent = percent c3, stackIndex = 3, clusterSize = 5,
             truncated = True \<rparr>,
          \<lparr> event = event c4, percent = percent c4, stackIndex = 4, clusterSize = 5,
             truncated = True \<rparr>]
       @ concat (map (\<lambda>c. map (positionInCluster (length c)) (enumerate 0 c)) cs2)"
    and "filter (\<lambda>ov. \<exists>e \<in> set (overflowEvents ov).
                    date e \<in> {date (event c3), date (event c4)})
           (overflowLoop team_list {} team_list)
     = (if date (event c3) = date (event c4)
        then [\<lparr> overflowPercent = percent c3, overflowCount = 2, overflowOffset = 126,
                 overflowEvents = [event c3, event c4] \<rparr>]
        else [\<lparr> overflowPercent = percent c3, overflowCount = 1, overflowOffset = 126,
                 overflowEvents = [event c3] \<rparr>,
              \<lparr> overflowPercent = percent c4, overflowCount = 1, overflowOffset = 126,
                 overflowEvents = [event c4] \<rparr>])"
  unfolding assms(2)
  using assms(1) apply (rule cluster_of_five_positions)
  using team_events_sorted team_events_percent assms(1) apply (rule cluster_of_five_overflow)
  done

text \<open>
  Claim C2, as amended. Within every cluster the members get the stack indices
  0, 1, 2, ... in cluster order, and a member is truncated exactly when the cluster
  has more than 3 members and its index is at least 3. Each team, red and blue, gets
  one overflow descriptor for every date that has a truncated record of the team.
  For any cluster of five events among the clusters of a team, the resolver gives the
  five records of the cluster in cluster order, the first three not truncated and the
  last two truncated, and the overflow descriptors of the team that hold a hidden
  event of the cluster are grouped by the date of the hidden events: one descriptor
  with count 2 holding both, at the percentage of the hidden events, when the two
  hidden events have the same date, and otherwise two descriptors with count 1 each.
  The vertical offset of a descriptor is \<open>30 + 3 * 32 = 126\<close>.
\<close>

theorem stacking_truncation_and_overflow:
  "assignPositions tes
     = concat (map (\<lambda>c. map (\<lambda>i. \<lparr> event = event (c ! i), percent = percent (c ! i),
                                    stackIndex = i, clusterSize = length c,
                                    truncated = (3 < length c \<and> 3 \<le> i) \<rparr>) [0..<length c])
                   (formClusters tes))
   \<and> length (redOverflows (getEventPositions P evs f))
       = card ((\<lambda>p. date (event p))
                 ` {p \<in> set (red (getEventPositions P evs f)). truncated p})
   \<and> length (blueOverflows (getEventPositions P evs f))
       = card ((\<lambda>p. date (event p))
                 ` {p \<in> set (blue (getEventPositions P evs f)). truncated p})
   \<and> (formClusters (filter (\<lambda>te. team (event te) = Red)
                       (map (\<lambda>e. \<lparr> event = e, percent = f (P (date e)) \<rparr>)
                            (sort_key (\<lambda>e. P (date e)) evs)))
        = rs1 @ [[r0, r1, r2, r3, r4]] @ rs2 \<longrightarrow>
          red (getEventPositions P evs f)
            = concat (map (\<lambda>c. map (positionInCluster (length c)) (enumerate 0 c)) rs1)
              @ [\<lparr> event = event r0, percent = percent r0, stackIndex = 0, clusterSize = 5,
                    truncated = False \<rparr>,
                 \<lparr> event = event r1, percent = percent r1, stackIndex = 1, clusterSize = 5,
                    truncated = False \<rparr>,
                 \<lparr> event = event r2, percent = percent r2, stackIndex = 2, clusterSize = 5,
                    truncated = False \<rparr>,
                 \<lparr> event = event r3, percent = percent r3, stackIndex = 3, clusterSize = 5,
                    truncated = True \<rparr>,
                 \<lparr> event = event r4, percent = percent r4, stackIndex = 4, clusterSize = 5,
                    truncated = True \<rparr>]
              @ concat (map (\<lambda>c. map (positionInCluster (length c)) (enumerate 0 c)) rs2)
          \<and> filter (\<lambda>ov. \<exists>e \<in> set (overflowEvents ov).
                             date e \<in> {date (event r3), date (event r4)})
               (redOverflows (getEventPositions P evs f))
            = (if date (event r3) = date (event r4)
               then [\<lparr> overflowPercent = percent r3, overflowCount = 2, overflowOffset = 126,
                        overflowEvents = [event r3, event r4] \<rparr>]
               else [\<lparr> overflowPercent = percent r3, overflowCount = 1, overflowOffset = 126,
                        overflowEvents = [event r3] \<rparr>,
                     \<lparr> overflowPercent = percent r4, overflowCount = 1, overflowOffset = 126,
                        overflowEvents = [event r4] \<rparr>]))
   \<and> (formClusters (filter (\<lambda>te. team (event te) \<noteq> Red)
                       (map (\<lambda>e. \<lparr> event = e, percent = f (P (date e)) \<rparr>)
                            (sort_key (\<lambda>e. P (date e)) evs)))
        = bs1 @ [[b0, b1, b2, b3, b4]] @ bs2 \<longrightarrow>
          blue (getEventPositions P evs f)
            = concat (map (\<lambda>c. map (positionInCluster (length c)) (enumerate 0 c)) bs1)
              @ [\<lparr> event = event b0, percent = percent b0, stackIndex = 0, clusterSize = 5,
                    truncated = False \<rparr>,
                 \<lparr> event = event b1, percent = percent b1, stackIndex = 1, clusterSize = 5,
                    truncated = False \<rparr>,
                 \<lparr> event = event b2, percent = percent b2, stackIndex = 2, clusterSize = 5,
                    truncated = False \<rparr>,
                 \<lparr> event = event b3, percent = percent b3, stackIndex = 3, clusterSize = 5,
                    truncated = True \<rparr>,
                 \<lparr> event = event b4, percent = percent b4, stackIndex = 4, clusterSize = 5,
                    truncated = True \<rparr>]
              @ concat (map (\<lambda>c. map (positionInCluster (length c)) (enumerate 0 c)) bs2)
          \<and> filter (\<lambda>ov. \<exists>e \<in> set (overflowEvents ov).
                             date e \<in> {date (event b3), date (event b4)})
               (blueOverflows (getEventPositions P evs f))
            = (if date (event b3) = date (event b4)
               then [\<lparr> overflowPercent = percent b3, overflowCount = 2, overflowOffset = 126,
                        overflowEvents = [event b3, event b4] \<rparr>]
               else [\<lparr> overflowPercent = percent b3, overflowCount = 1, overflowOffset = 126,
                        overflowEvents = [event b3] \<rparr>,
                     \<lparr> overflowPercent = percent b4, overflowCount = 1, overflowOffset = 126,
                        overflowEvents = [event b4] \<rparr>]))"
proof -
  let ?withPercent = "map (\<lambda>e. \<lparr> event = e, percent = f (P (date e)) \<rparr>)
                          (sort_key (\<lambda>e. P (date e)) evs)"
  have r: "red (getEventPositions P evs f)
      = assignPositions (filter (\<lambda>te. team (event te) = Red) ?withPercent)"
    and b: "blue (getEventPositions P evs f)
      = assignPositions (filter (\<lambda>te. team (event te) \<noteq> Red) ?withPercent)"
    by (simp_all add: getEventPositions_def Let_def)
  have red_count: "length (redOverflows (getEventPositions P evs f))
       = card ((\<lambda>p. date (event p))
                 ` {p \<in> set (red (getEventPositions P evs f)). truncated p})"
    and blue_count: "length (blueOverflows (getEventPositions P evs f))
       = card ((\<lambda>p. date (event p))
                 ` {p \<in> set (blue (getEventPositions P evs f)). truncated p})"
    by (simp_all add: redOverflows_def blueOverflows_def overflowLoop_length)
  show ?thesis
    unfolding redOverflows_def blueOverflows_def
    apply (intro conjI impI)
            apply (rule assignPositions_by_index)
           apply (rule red_count [unfolded redOverflows_def])
          apply (rule blue_count [unfolded blueOverflows_def])
         apply (erule team_cluster_of_five(1) [OF _ r])
        apply (erule team_cluster_of_five(2) [OF _ r])
       apply (erule team_cluster_of_five(1) [OF _ b])
      apply (erule team_cluster_of_five(2) [OF _ b])
    done
qed

lemma longConfig_days:
  "toPercent sampleParseISO W longConfig days d = real_of_int d / 10"
  by (simp add: toPercent_def totalDays_def dayToLinearPercent_def
      differenceInCalendarDays_def longConfig_def sampleParseISO_values)

lemma fiveDays_sorted:
  "filter (\<lambda>e. team e = Red) (sort_key (\<lambda>e. sampleParseISO (date e)) fiveDays)
     = [sampleEvent ''a'' ''2024-01-01'' Red 1, sampleEvent ''b'' ''2024-01-02'' Red 1,
        sampleEvent ''c'' ''2024-01-03'' Red 1, sampleEvent ''d'' ''2024-01-04'' Red 1,
        sampleEvent ''e'' ''2024-01-05'' Red 1]"
  by (simp add: fiveDays_def sampleEvent_fields sampleParseISO_values)

text \<open>
  Over the range 2024-01-01 to 2026-09-27 a day is 0.1 percentage points. The red
  events of \<open>mixedTeams\<close> form three clusters, the second one of five events of one
  date; the blue events form two clusters, the first one of five events on five
  successive days.
\<close>

lemma mixedTeams_sorted:
  "sort_key (\<lambda>e. sampleParseISO (date e)) mixedTeams
     = [sampleEvent ''b0'' ''2024-01-01'' Blue 1, sampleEvent ''r0'' ''2024-01-01'' Red 1,
        sampleEvent ''b1'' ''2024-01-02'' Blue 2, sampleEvent ''b2'' ''2024-01-03'' Blue 3,
        sampleEvent ''b3'' ''2024-01-04'' Blue 4, sampleEvent ''b4'' ''2024-01-05'' Blue 1,
        sampleEvent ''b5'' ''2024-01-18'' Blue 1, sampleEvent ''r1'' ''2024-01-18'' Red 1,
        sampleEvent ''r2'' ''2024-01-18'' Red 2, sampleEvent ''r3'' ''2024-01-18'' Red 3,
        sampleEvent ''r4'' ''2024-01-18'' Red 4, sampleEvent ''r5'' ''2024-01-18'' Red 1,
        sampleEvent ''r6'' ''2026-09-27'' Red 1]"
  by (simp add: mixedTeams_def sampleEvent_fields sampleParseISO_values)

lemma mixedTeams_red:
  "formClusters (filter (\<lambda>te. team (event te) = Red)
     (map (\<lambda>e. \<lparr> event = e, percent = toPercent sampleParseISO mondayWeeks longConfig days
                                          (sampleParseISO (date e)) \<rparr>)
          (sort_key (\<lambda>e. sampleParseISO (date e)) mixedTeams)))
     = [[\<lparr> event = sampleEvent ''r0'' ''2024-01-01'' Red 1, percent = 0 \<rparr>]]
       @ [[\<lparr> event = sampleEvent ''r1'' ''2024-01-18'' Red 1, percent = 17 / 10 \<rparr>,
           \<lparr> event = sampleEvent ''r2'' ''2024-01-18'' Red 2, percent = 17 / 10 \<rparr>,
           \<lparr> event = sampleEvent ''r3'' ''2024-01-18'' Red 3, percent = 17 / 10 \<rparr>,
           \<lparr> event = sampleEvent ''r4'' ''2024-01-18'' Red 4, percent = 17 / 10 \<rparr>,
           \<lparr> event = sampleEvent ''r5'' ''2024-01-18'' Red 1, percent = 17 / 10 \<rparr>]]
       @ [[\<lparr> event = sampleEvent ''r6'' ''2026-09-27'' Red 1, percent = 100 \<rparr>]]"
  by (simp add: mixedTeams_sorted longConfig_days sampleEvent_fields sampleParseISO_values
      formClusters_def addToClusters_def PROXIMITY_THRESHOLD_PCT_def)

lemma mixedTeams_blue:
  "formClusters (filter (\<lambda>te. team (event te) \<noteq> Red)
     (map (\<lambda>e. \<lparr> event = e, percent = toPercent sampleParseISO mondayWeeks longConfig days
                                          (sampleParseISO (date e)) \<rparr>)
          (sort_key (\<lambda>e. sampleParseISO (date e)) mixedTeams)))
     = []
       @ [[\<lparr> event = sampleEvent ''b0'' ''2024-01-01'' Blue 1, percent = 0 \<rparr>,
           \<lparr> event = sampleEvent ''b1'' ''2024-01-02'' Blue 2, percent = 1 / 10 \<rparr>,
           \<lparr> event = sampleEvent ''b2'' ''2024-01-03'' Blue 3, percent = 1 / 5 \<rparr>,
           \<lparr> event = sampleEvent ''b3'' ''2024-01-04'' Blue 4, percent = 3 / 10 \<rparr>,
           \<lparr> event = sampleEvent ''b4'' ''2024-01-05'' Blue 1, percent = 2 / 5 \<rparr>]]
       @ [[\<lparr> event = sampleEvent ''b5'' ''2024-01-18'' Blue 1, percent = 17 / 10 \<rparr>]]"
  by (simp add: mixedTeams_sorted longConfig_days sampleEvent_fields sampleParseISO_values
      formClusters_def addToClusters_def PROXIMITY_THRESHOLD_PCT_def)

lemma all_descriptors:
  assumes "filter Q ovs = found" and "length ovs = length found"
  shows "ovs = found"
proof -
  from assms have "length (filter Q ovs) = length ovs" by simp
  then have "filter Q ovs = ovs"
  proof (induction ovs)
    case Nil
    show ?case by simp
  next
    case (Cons ov ovs)
    have "length (filter Q ovs) \<le> length ovs" by (rule length_filter_le)
    with Cons show ?case by (cases "Q ov") simp_all
  qed
  with assms(1) show ?thesis by simp
qed

lemma hidden_dates:
  "card ((\<lambda>p. date (event p)) ` {p \<in> set ps. truncated p})
     = length (remdups (map (\<lambda>p. date (event p)) (filter truncated ps)))"
proof -
  have "{p \<in> set ps. truncated p} = set (filter truncated ps)" by simp
  then show ?thesis by (simp only: image_set card_set)
qed

theorem stacking_truncation_and_overflow_witness:
  "formClusters (filter (\<lambda>te. team (event te) = Red)
     (map (\<lambda>e. \<lparr> event = e, percent = toPercent sampleParseISO mondayWeeks longConfig days
                                          (sampleParseISO (date e)) \<rparr>)
          (sort_key (\<lambda>e. sampleParseISO (date e)) mixedTeams)))
     = [[\<lparr> event = sampleEvent ''r0'' ''2024-01-01'' Red 1, percent = 0 \<rparr>]]
       @ [[\<lparr> event = sampleEvent ''r1'' ''2024-01-18'' Red 1, percent = 17 / 10 \<rparr>,
           \<lparr> event = sampleEvent ''r2'' ''2024-01-18'' Red 2, percent = 17 / 10 \<rparr>,
           \<lparr> event = sampleEvent ''r3'' ''2024-01-18'' Red 3, percent = 17 / 10 \<rparr>,
           \<lparr> event = sampleEvent ''r4'' ''2024-01-18'' Red 4, percent = 17 / 10 \<rparr>,
           \<lparr> event = sampleEvent ''r5'' ''2024-01-18'' Red 1, percent = 17 / 10 \<rparr>]]
       @ [[\<lparr> event = sampleEvent ''r6'' ''2026-09-27'' Red 1, percent = 100 \<rparr>]]
   \<and> map stackIndex (red (getEventPositions sampleParseISO mixedTeams
                             (toPercent sampleParseISO mondayWeeks longConfig days)))
       = [0, 0, 1, 2, 3, 4, 0]
   \<and> map truncated (red (getEventPositions sampleParseISO mixedTeams
                            (toPercent sampleParseISO mondayWeeks longConfig days)))
       = [False, False, False, False, True, True, False]
   \<and> redOverflows (getEventPositions sampleParseISO mixedTeams
                     (toPercent sampleParseISO mondayWeeks longConfig days))
       = [\<lparr> overflowPercent = 17 / 10, overflowCount = 2, overflowOffset = 126,
             overflowEvents = [sampleEvent ''r4'' ''2024-01-18'' Red 4,
                               sampleEvent ''r5'' ''2024-01-18'' Red 1] \<rparr>]
   \<and> formClusters (filter (\<lambda>te. team (event te) \<noteq> Red)
     (map (\<lambda>e. \<lparr> event = e, percent = toPercent sampleParseISO mondayWeeks longConfig days
                                          (sampleParseISO (date e)) \<rparr>)
          (sort_key (\<lambda>e. sampleParseISO (date e)) mixedTeams)))
     = []
       @ [[\<lparr> event = sampleEvent ''b0'' ''2024-01-01'' Blue 1, percent = 0 \<rparr>,
           \<lparr> event = sampleEvent ''b1'' ''2024-01-02'' Blue 2, percent = 1 / 10 \<rparr>,
           \<lparr> event = sampleEvent ''b2'' ''2024-01-03'' Blue 3, percent = 1 / 5 \<rparr>,
           \<lparr> event = sampleEvent ''b3'' ''2024-01-04'' Blue 4, percent = 3 / 10 \<rparr>,
           \<lparr> event = sampleEvent ''b4'' ''2024-01-05'' Blue 1, percent = 2 / 5 \<rparr>]]
       @ [[\<lparr> event = sampleEvent ''b5'' ''2024-01-18'' Blue 1, percent = 17 / 10 \<rparr>]]
   \<and> map stackIndex (blue (getEventPositions sampleParseISO mixedTeams
                              (toPercent sampleParseISO mondayWeeks longConfig days)))
       = [0, 1, 2, 3, 4, 0]
   \<and> map truncated (blue (getEventPositions sampleParseISO mixedTeams
                             (toPercent sampleParseISO mondayWeeks longConfig days)))
       = [False, False, False, True, True, False]
   \<and> blueOverflows (getEventPositions sampleParseISO mixedTeams
                      (toPercent sampleParseISO mondayWeeks longConfig days))
       = [\<lparr> overflowPercent = 3 / 10, overflowCount = 1, overflowOffset = 126,
             overflowEvents = [sampleEvent ''b3'' ''2024-01-04'' Blue 4] \<rparr>,
          \<lparr> overflowPercent = 2 / 5, overflowCount = 1, overflowOffset = 126,
             overflowEvents = [sampleEvent ''b4'' ''2024-01-05'' Blue 1] \<rparr>]"
proof -
  let ?positions = "getEventPositions sampleParseISO mixedTeams
                      (toPercent sampleParseISO mondayWeeks longConfig days)"
  note five = stacking_truncation_and_overflow
    [where tes = "[]" and P = sampleParseISO and evs = mixedTeams
       and f = "toPercent sampleParseISO mondayWeeks longConfig days"
       and ?rs1.0 = "[[\<lparr> event = sampleEvent ''r0'' ''2024-01-01'' Red 1, percent = 0 \<rparr>]]"
       and ?r0.0 = "\<lparr> event = sampleEvent ''r1'' ''2024-01-18'' Red 1, percent = 17 / 10 \<rparr>"
       and ?r1.0 = "\<lparr> event = sampleEvent ''r2'' ''2024-01-18'' Red 2, percent = 17 / 10 \<rparr>"
       and ?r2.0 = "\<lparr> event = sampleEvent ''r3'' ''2024-01-18'' Red 3, percent = 17 / 10 \<rparr>"
       and ?r3.0 = "\<lparr> event = sampleEvent ''r4'' ''2024-01-18'' Red 4, percent = 17 / 10 \<rparr>"
       and ?r4.0 = "\<lparr> event = sampleEvent ''r5'' ''2024-01-18'' Red 1, percent = 17 / 10 \<rparr>"
       and ?rs2.0 = "[[\<lparr> event = sampleEvent ''r6'' ''2026-09-27'' Red 1, percent = 100 \<rparr>]]"
       and ?bs1.0 = "[]"
       and ?b0.0 = "\<lparr> event = sampleEvent ''b0'' ''2024-01-01'' Blue 1, percent = 0 \<rparr>"
       and ?b1.0 = "\<lparr> event = sampleEvent ''b1'' ''2024-01-02'' Blue 2, percent = 1 / 10 \<rparr>"
       and ?b2.0 = "\<lparr> event = sampleEvent ''b2'' ''2024-01-03'' Blue 3, percent = 1 / 5 \<rparr>"
       and ?b3.0 = "\<lparr> event = sampleEvent ''b3'' ''2024-01-04'' Blue 4, percent = 3 / 10 \<rparr>"
       and ?b4.0 = "\<lparr> event = sampleEvent ''b4'' ''2024-01-05'' Blue 1, percent = 2 / 5 \<rparr>"
       and ?bs2.0 = "[[\<lparr> event = sampleEvent ''b5'' ''2024-01-18'' Blue 1, percent = 17 / 10 \<rparr>]]"]
  note red_count = five [THEN conjunct2, THEN conjunct1]
  note blue_count = five [THEN conjunct2, THEN conjunct2, THEN conjunct1]
  note red_five = five [THEN conjunct2, THEN conjunct2, THEN conjunct2, THEN conjunct1,
      THEN mp, OF mixedTeams_red]
  note blue_five = five [THEN conjunct2, THEN conjunct2, THEN conjunct2, THEN conjunct2,
      THEN mp, OF mixedTeams_blue]
  have red_positions: "red ?positions
      = [\<lparr> event = sampleEvent ''r0'' ''2024-01-01'' Red 1, percent = 0, stackIndex = 0,
            clusterSize = 1, truncated = False \<rparr>,
         \<lparr> event = sampleEvent ''r1'' ''2024-01-18'' Red 1, percent = 17 / 10, stackIndex = 0,
            clusterSize = 5, truncated = False \<rparr>,
         \<lparr> event = sampleEvent ''r2'' ''2024-01-18'' Red 2, percent = 17 / 10, stackIndex = 1,
            clusterSize = 5, truncated = False \<rparr>,
         \<lparr> event = sampleEvent ''r3'' ''2024-01-18'' Red 3, percent = 17 / 10, stackIndex = 2,
            clusterSize = 5, truncated = False \<rparr>,
         \<lparr> event = sampleEvent ''r4'' ''2024-01-18'' Red 4, percent = 17 / 10, stackIndex = 3,
            clusterSize = 5, truncated = True \<rparr>,
         \<lparr> event = sampleEvent ''r5'' ''2024-01-18'' Red 1, percent = 17 / 10, stackIndex = 4,
            clusterSize = 5, truncated = True \<rparr>,
         \<lparr> event = sampleEvent ''r6'' ''2026-09-27'' Red 1, percent = 100, stackIndex = 0,
            clusterSize = 1, truncated = False \<rparr>]"
    unfolding red_five [THEN conjunct1]
    by (simp add: positionInCluster_def CLUSTER_VISIBLE_LIMIT_def)
  have blue_positions: "blue ?positions
      = [\<lparr> event = sampleEvent ''b0'' ''2024-01-01'' Blue 1, percent = 0, stackIndex = 0,
            clusterSize = 5, truncated = False \<rparr>,
         \<lparr> event = sampleEvent ''b1'' ''2024-01-02'' Blue 2, percent = 1 / 10, stackIndex = 1,
            clusterSize = 5, truncated = False \<rparr>,
         \<lparr> event = sampleEvent ''b2'' ''2024-01-03'' Blue 3, percent = 1 / 5, stackIndex = 2,
            clusterSize = 5, truncated = False \<rparr>,
         \<lparr> event = sampleEvent ''b3'' ''2024-01-04'' Blue 4, percent = 3 / 10, stackIndex = 3,
            clusterSize = 5, truncated = True \<rparr>,
         \<lparr> event = sampleEvent ''b4'' ''2024-01-05'' Blue 1, percent = 2 / 5, stackIndex = 4,
            clusterSize = 5, truncated = True \<rparr>,
         \<lparr> event = sampleEvent ''b5'' ''2024-01-18'' Blue 1, percent = 17 / 10, stackIndex = 0,
            clusterSize = 1, truncated = False \<rparr>]"
    unfolding blue_five [THEN conjunct1]
    by (simp add: positionInCluster_def CLUSTER_VISIBLE_LIMIT_def)
  have red_one: "length (redOverflows ?positions) = 1"
    unfolding red_count hidden_dates red_positions by (simp add: sampleEvent_fields)
  have red_overflows: "redOverflows ?positions
       = [\<lparr> overflowPercent = 17 / 10, overflowCount = 2, overflowOffset = 126,
             overflowEvents = [sampleEvent ''r4'' ''2024-01-18'' Red 4,
                               sampleEvent ''r5'' ''2024-01-18'' Red 1] \<rparr>]"
    using all_descriptors [OF red_five [THEN conjunct2]] red_one
    by (simp add: sampleEvent_fields)
  have blue_two: "length (blueOverflows ?positions) = 2"
    unfolding blue_count hidden_dates blue_positions by (simp add: sampleEvent_fields)
  have blue_overflows: "blueOverflows ?positions
       = [\<lparr> overflowPercent = 3 / 10, overflowCount = 1, overflowOffset = 126,
             overflowEvents = [sampleEvent ''b3'' ''2024-01-04'' Blue 4] \<rparr>,
          \<lparr> overflowPercent = 2 / 5, overflowCount = 1, overflowOffset = 126,
             overflowEvents = [sampleEvent ''b4'' ''2024-01-05'' Blue 1] \<rparr>]"
    using all_descriptors [OF blue_five [THEN conjunct2]] blue_two
    by (simp add: sampleEvent_fields)
  show ?thesis
    unfolding red_overflows blue_overflows
    unfolding red_positions blue_positions
    by (simp add: mixedTeams_red [simplified] mixedTeams_blue [simplified])
qed

text \<open>
  Claim C2 as stated fails: over the range 2024-01-01 to 2026-09-27 in days mode, five
  red events on five successive days lie within 0.4 percentage points and form one
  cluster of size 5. Three records are visible, but the two hidden events have
  different dates, so there are two overflow descriptors with count 1 each, at 0.3
  and 0.4, and no descriptor with count 2.
\<close>

theorem one_overflow_per_cluster_counterexample:
  "map clusterSize (red (getEventPositions sampleParseISO fiveDays
                           (toPercent sampleParseISO mondayWeeks longConfig days)))
     = [5, 5, 5, 5, 5]
   \<and> length (filter (\<lambda>p. \<not> truncated p)
         (red (getEventPositions sampleParseISO fiveDays
                 (toPercent sampleParseISO mondayWeeks longConfig days)))) = 3
   \<and> map overflowCount (redOverflows (getEventPositions sampleParseISO fiveDays
                           (toPercent sampleParseISO mondayWeeks longConfig days)))
     = [1, 1]
   \<and> map overflowPercent (redOverflows (getEventPositions sampleParseISO fiveDays
                           (toPercent sampleParseISO mondayWeeks longConfig days)))
     = [3 / 10, 2 / 5]
   \<and> length (redOverflows (getEventPositions sampleParseISO fiveDays
                           (toPercent sampleParseISO mondayWeeks longConfig days))) \<noteq> 1"
proof -
  let ?t = "\<lambda>e. \<lparr> event = e, percent = real_of_int (sampleParseISO (date e)) / 10 \<rparr>"
  let ?a = "sampleEvent ''a'' ''2024-01-01'' Red 1"
  let ?b = "sampleEvent ''b'' ''2024-01-02'' Red 1"
  let ?c = "sampleEvent ''c'' ''2024-01-03'' Red 1"
  let ?d = "sampleEvent ''d'' ''2024-01-04'' Red 1"
  let ?e = "sampleEvent ''e'' ''2024-01-05'' Red 1"
  have r: "red (getEventPositions sampleParseISO fiveDays
                  (toPercent sampleParseISO mondayWeeks longConfig days))
      = assignPositions [?t ?a, ?t ?b, ?t ?c, ?t ?d, ?t ?e]"
    by (simp add: getEventPositions_red fiveDays_sorted longConfig_days)
  have close: "\<bar>percent (?t ?b) - percent (?t ?a)\<bar> < 1.5"
    "\<bar>percent (?t ?c) - percent (?t ?a)\<bar> < 1.5"
    "\<bar>percent (?t ?d) - percent (?t ?a)\<bar> < 1.5"
    "\<bar>percent (?t ?e) - percent (?t ?a)\<bar> < 1.5"
    by (simp_all add: sampleEvent_fields sampleParseISO_values)
  show ?thesis
    unfolding redOverflows_def r five_overflow [OF close]
    unfolding five_positions [OF close]
    by (simp add: sampleEvent_fields sampleParseISO_values)
qed

section \<open>Import validation\<close>

lemma not_isBlank: "\<not> isBlank v \<longleftrightarrow> (\<exists>text. v = Some (JString text) \<and> trim text \<noteq> [])"
  by (cases v rule: asString.cases) (simp_all add: isBlank_def)

lemma isValidISODate_iff:
  "isValidISODate P v \<longleftrightarrow> (\<exists>text. v = Some (JString text) \<and> P text \<noteq> None)"
  by (cases v rule: asString.cases) (simp_all add: isValidISODate_def)

lemma validateEvent_accepts:
  assumes "validateEvent P U n ev i = Inr (e, n')"
  shows "isObject ev"
    and "getProp ev ''date'' = Some (JString (date e))" and "P (date e) \<noteq> None"
    and "getProp ev ''team'' = Some (JString (if team e = Red then ''red'' else ''blue''))"
    and "getProp ev ''description'' = Some (JString (description e))"
    and "trim (description e) \<noteq> []"
    and "lane e = Some (case getProp ev ''lane'' of
                          Some (JNumber x) \<Rightarrow>
                            if x = 1 \<or> x = 2 \<or> x = 3 \<or> x = 4 then \<lfloor>x\<rfloor> else 1
                        | _ \<Rightarrow> 1)"
    and "\<not> isBlank (getProp ev ''id'') \<longrightarrow>
           getProp ev ''id'' = Some (JString (event_id e)) \<and> n' = n"
    and "isBlank (getProp ev ''id'') \<longrightarrow> event_id e = U n \<and> n' = Suc n"
proof -
  from assms have obj: "isObject ev"
    and d: "isValidISODate P (getProp ev ''date'')"
    and t: "getProp ev ''team'' = Some (JString ''red'') \<or> getProp ev ''team'' = Some (JString ''blue'')"
    and de: "\<not> isBlank (getProp ev ''description'')"
    by (auto simp: validateEvent_def split: if_splits)
  from d obtain dt where dt: "getProp ev ''date'' = Some (JString dt)" "P dt \<noteq> None"
    by (auto simp: isValidISODate_iff)
  from de obtain ds where ds: "getProp ev ''description'' = Some (JString ds)" "trim ds \<noteq> []"
    by (auto simp: not_isBlank)
  from assms obj d t de have e: "e = \<lparr> event_id = (if \<not> isBlank (getProp ev ''id'')
                                   then the (asString (getProp ev ''id'')) else U n),
                  date = dt,
                  team = (if getProp ev ''team'' = Some (JString ''red'') then Red else Blue),
                  description = ds,
                  lane = Some (case getProp ev ''lane'' of
                          Some (JNumber x) \<Rightarrow>
                            if x = 1 \<or> x = 2 \<or> x = 3 \<or> x = 4 then \<lfloor>x\<rfloor> else 1
                        | _ \<Rightarrow> 1) \<rparr>"
    and n': "n' = (if \<not> isBlank (getProp ev ''id'') then n else Suc n)"
    by (auto simp: validateEvent_def Let_def dt ds)
  show "isObject ev" by fact
  show "getProp ev ''date'' = Some (JString (date e))" "P (date e) \<noteq> None"
    using dt by (simp_all add: e)
  show "getProp ev ''team'' = Some (JString (if team e = Red then ''red'' else ''blue''))"
    using t by (auto simp: e)
  show "getProp ev ''description'' = Some (JString (description e))" "trim (description e) \<noteq> []"
    using ds by (simp_all add: e)
  show "lane e = Some (case getProp ev ''lane'' of
                          Some (JNumber x) \<Rightarrow>
                            if x = 1 \<or> x = 2 \<or> x = 3 \<or> x = 4 then \<lfloor>x\<rfloor> else 1
                        | _ \<Rightarrow> 1)"
    by (simp add: e)
  show "\<not> isBlank (getProp ev ''id'') \<longrightarrow>
           getProp ev ''id'' = Some (JString (event_id e)) \<and> n' = n"
    by (auto simp: e n' not_isBlank)
  show "isBlank (getProp ev ''id'') \<longrightarrow> event_id e = U n \<and> n' = Suc n"
    by (simp add: e n')
qed

lemma validateEvent_rejects:
  "\<not> isObject ev \<Longrightarrow> validateEvent P U n ev i = Inl (EventNotObject i)"
  "isObject ev \<Longrightarrow> \<not> isValidISODate P (getProp ev ''date'')
     \<Longrightarrow> validateEvent P U n ev i = Inl (EventDateInvalid i)"
  "isObject ev \<Longrightarrow> isValidISODate P (getProp ev ''date'')
     \<Longrightarrow> getProp ev ''team'' \<noteq> Some (JString ''red'')
     \<Longrightarrow> getProp ev ''team'' \<noteq> Some (JString ''blue'')
     \<Longrightarrow> validateEvent P U n ev i = Inl (EventTeamInvalid i)"
  "isObject ev \<Longrightarrow> isValidISODate P (getProp ev ''date'')
     \<Longrightarrow> getProp ev ''team'' = Some (JString ''red'') \<or> getProp ev ''team'' = Some (JString ''blue'')
     \<Longrightarrow> isBlank (getProp ev ''description'')
     \<Longrightarrow> validateEvent P U n ev i = Inl (EventDescriptionInvalid i)"
  by (auto simp: validateEvent_def)

lemma validateEvents_accepts:
  "validateEvents P U n evs i = Inr es \<Longrightarrow>
     length es = length evs \<and>
     (\<forall>k < length evs. \<exists>m m'. validateEvent P U m (evs ! k) (i + k) = Inr (es ! k, m'))"
proof (induction evs arbitrary: n i es)
  case Nil
  then show ?case by simp
next
  case (Cons ev evs)
  from Cons.prems obtain e n' es' where
    e: "validateEvent P U n ev i = Inr (e, n')"
    and rest: "validateEvents P U n' evs (Suc i) = Inr es'" and es: "es = e # es'"
    by (auto split: sum.splits)
  from Cons.IH [OF rest] have len: "length es' = length evs"
    and ih: "\<forall>k < length evs. \<exists>m m'. validateEvent P U m (evs ! k) (Suc i + k) = Inr (es' ! k, m')"
    by simp_all
  have "\<exists>m m'. validateEvent P U m ((ev # evs) ! k) (i + k) = Inr (es ! k, m')"
    if "k < length (ev # evs)" for k
  proof (cases k)
    case 0
    with e es show ?thesis by auto
  next
    case (Suc j)
    with that ih es show ?thesis by simp
  qed
  with len es show ?case by simp
qed

lemma isBlank_iff: "isBlank v \<longleftrightarrow> (\<forall>text. v = Some (JString text) \<longrightarrow> trim text = [])"
  using not_isBlank [of v] by blast

lemma validateEvent_error_calls:
  "validateEvent P U m ev i = Inl err \<Longrightarrow> validateEvent P U n ev i = Inl err"
  by (auto simp: validateEvent_def Let_def split: if_splits)

lemma validateEvent_accept_calls:
  "validateEvent P U m ev i = Inr x \<Longrightarrow> \<exists>y. validateEvent P U n ev i = Inr y"
  by (auto simp: validateEvent_def Let_def split: if_splits)

lemma validateEvents_first_error:
  assumes "k < length evs"
    and "\<forall>j < k. \<exists>e m m'. validateEvent P U m (evs ! j) (i + j) = Inr (e, m')"
    and "validateEvent P U m (evs ! k) (i + k) = Inl err"
  shows "validateEvents P U n evs i = Inl err"
  using assms
proof (induction evs arbitrary: n i k)
  case Nil
  then show ?case by simp
next
  case (Cons ev evs)
  show ?case
  proof (cases k)
    case 0
    with Cons.prems(3) have "validateEvent P U m ev i = Inl err" by simp
    then have "validateEvent P U n ev i = Inl err" by (rule validateEvent_error_calls)
    then show ?thesis by simp
  next
    case (Suc k')
    then have "0 < k" by simp
    with Cons.prems(2) have "\<exists>e m m'. validateEvent P U m ((ev # evs) ! 0) (i + 0) = Inr (e, m')"
      by blast
    then obtain e0 m0 m0' where "validateEvent P U m0 ev i = Inr (e0, m0')" by auto
    then have "\<exists>y. validateEvent P U n ev i = Inr y" by (rule validateEvent_accept_calls)
    then obtain e n' where here: "validateEvent P U n ev i = Inr (e, n')" by auto
    from Suc Cons.prems(1) have k': "k' < length evs" by simp
    have before: "\<forall>j < k'. \<exists>e m m'. validateEvent P U m (evs ! j) (Suc i + j) = Inr (e, m')"
    proof (intro allI impI)
      fix j assume "j < k'"
      with Suc have "Suc j < k" by simp
      with Cons.prems(2)
      have "\<exists>e m m'. validateEvent P U m ((ev # evs) ! Suc j) (i + Suc j) = Inr (e, m')"
        by blast
      then show "\<exists>e m m'. validateEvent P U m (evs ! j) (Suc i + j) = Inr (e, m')"
        by simp
    qed
    from Suc Cons.prems(3) have "validateEvent P U m (evs ! k') (Suc i + k') = Inl err" by simp
    with k' before have "validateEvents P U n' evs (Suc i) = Inl err" by (rule Cons.IH)
    with here show ?thesis by simp
  qed
qed

lemma validateEvent_accepts_valid:
  assumes "isObject ev" and "getProp ev ''date'' = Some (JString d)" and "P d \<noteq> None"
    and "getProp ev ''team'' = Some (JString t)" and "t = ''red'' \<or> t = ''blue''"
    and "getProp ev ''description'' = Some (JString ds)" and "trim ds \<noteq> []"
  shows "validateEvent P U n ev i
     = Inr (\<lparr> event_id = (case getProp ev ''id'' of
                              Some (JString s) \<Rightarrow> if trim s = [] then U n else s
                            | _ \<Rightarrow> U n),
               date = d,
               team = (if t = ''red'' then Red else Blue),
               description = ds,
               lane = Some (case getProp ev ''lane'' of
                              Some (JNumber x) \<Rightarrow>
                                if x = 1 \<or> x = 2 \<or> x = 3 \<or> x = 4 then \<lfloor>x\<rfloor> else 1
                            | _ \<Rightarrow> 1) \<rparr>,
            (case getProp ev ''id'' of
               Some (JString s) \<Rightarrow> if trim s = [] then Suc n else n
             | _ \<Rightarrow> Suc n))"
  using assms
  by (cases "getProp ev ''id''" rule: asString.cases)
     (auto simp: validateEvent_def isValidISODate_def isBlank_def)

lemma validateEvents_accepts_valid:
  assumes "\<forall>k < length evs. \<exists>e m m'. validateEvent P U m (evs ! k) (i + k) = Inr (e, m')"
  shows "\<exists>es. validateEvents P U n evs i = Inr es"
  using assms
proof (induction evs arbitrary: n i)
  case Nil
  show ?case by simp
next
  case (Cons ev evs)
  have "0 < length (ev # evs)" by simp
  with Cons.prems
  have "\<exists>e m m'. validateEvent P U m ((ev # evs) ! 0) (i + 0) = Inr (e, m')" by blast
  then obtain e0 m0 m0' where "validateEvent P U m0 ev i = Inr (e0, m0')" by auto
  then have "\<exists>y. validateEvent P U n ev i = Inr y" by (rule validateEvent_accept_calls)
  then obtain e n' where here: "validateEvent P U n ev i = Inr (e, n')" by auto
  have "\<forall>k < length evs. \<exists>e m m'. validateEvent P U m (evs ! k) (Suc i + k) = Inr (e, m')"
  proof (intro allI impI)
    fix k assume "k < length evs"
    then have "Suc k < length (ev # evs)" by simp
    with Cons.prems
    have "\<exists>e m m'. validateEvent P U m ((ev # evs) ! Suc k) (i + Suc k) = Inr (e, m')"
      by blast
    then show "\<exists>e m m'. validateEvent P U m (evs ! k) (Suc i + k) = Inr (e, m')" by simp
  qed
  then have "\<exists>es. validateEvents P U n' evs (Suc i) = Inr es" by (rule Cons.IH)
  then obtain es where "validateEvents P U n' evs (Suc i) = Inr es" by blast
  with here show ?case by simp
qed

lemma import_accepts_valid:
  assumes "isObject data" and "getProp data ''config'' = Some cfg" and "isObject cfg"
    and "\<not> isBlank (getProp cfg ''title'')"
    and "isValidISODate P (getProp cfg ''startDate'')"
    and "isValidISODate P (getProp cfg ''endDate'')"
    and "getProp data ''events'' = Some (JArray elems)"
    and "\<forall>j < length elems. \<exists>e m m'. validateEvent P U m (elems ! j) j = Inr (e, m')"
  shows "\<exists>st. importFromJson P U data = Inr st"
proof -
  from assms(8) have "\<exists>es. validateEvents P U 0 elems 0 = Inr es"
    using validateEvents_accepts_valid [of elems P U 0 0] by simp
  then obtain es where "validateEvents P U 0 elems 0 = Inr es" by blast
  with assms(1-7) show ?thesis by (simp add: importFromJson_def)
qed

lemma lane_of_accepted:
  assumes "lane e = Some (case v of
                          Some (JNumber x) \<Rightarrow>
                            if x = 1 \<or> x = 2 \<or> x = 3 \<or> x = 4 then \<lfloor>x\<rfloor> else 1
                        | _ \<Rightarrow> 1)"
  shows "(\<forall>l \<in> {1, 2, 3, 4}. v = Some (JNumber (real_of_int l)) \<longrightarrow> lane e = Some l)
       \<and> ((\<forall>l \<in> {1, 2, 3, 4}. v \<noteq> Some (JNumber (real_of_int l))) \<longrightarrow> lane e = Some 1)"
  using assms by (auto split: option.splits json.splits)

lemma import_accepts:
  assumes "importFromJson P U data = Inr st"
  shows "isObject data \<and>
     (\<exists>cfg elems.
         getProp data ''config'' = Some cfg \<and> isObject cfg
       \<and> getProp cfg ''title'' = Some (JString (title (config st)))
       \<and> trim (title (config st)) \<noteq> []
       \<and> getProp cfg ''startDate'' = Some (JString (startDate (config st)))
       \<and> P (startDate (config st)) \<noteq> None
       \<and> getProp cfg ''endDate'' = Some (JString (endDate (config st)))
       \<and> P (endDate (config st)) \<noteq> None
       \<and> getProp data ''events'' = Some (JArray elems)
       \<and> length (events st) = length elems
       \<and> (\<forall>k < length elems. \<exists>m m'.
             validateEvent P U m (elems ! k) k = Inr (events st ! k, m')))"
proof -
  from assms have obj: "isObject data"
    by (auto simp: importFromJson_def split: if_splits)
  from assms obj obtain cfg where cfg: "getProp data ''config'' = Some cfg" "isObject cfg"
    and t: "\<not> isBlank (getProp cfg ''title'')"
    and s: "isValidISODate P (getProp cfg ''startDate'')"
    and e: "isValidISODate P (getProp cfg ''endDate'')"
    by (auto simp: importFromJson_def split: if_splits option.splits)
  from t obtain tt where tt: "getProp cfg ''title'' = Some (JString tt)" "trim tt \<noteq> []"
    by (auto simp: not_isBlank)
  from s obtain ss where ss: "getProp cfg ''startDate'' = Some (JString ss)" "P ss \<noteq> None"
    by (auto simp: isValidISODate_iff)
  from e obtain ee where ee: "getProp cfg ''endDate'' = Some (JString ee)" "P ee \<noteq> None"
    by (auto simp: isValidISODate_iff)
  from assms obj cfg t s e obtain elems evs where
    elems: "getProp data ''events'' = Some (JArray elems)"
    and evs: "validateEvents P U 0 elems 0 = Inr evs"
    and st: "st = \<lparr> config = \<lparr> startDate = ss, endDate = ee, title = tt \<rparr>, events = evs \<rparr>"
    by (auto simp: importFromJson_def tt ss ee split: option.splits json.splits sum.splits)
  from validateEvents_accepts [OF evs]
  have "length evs = length elems"
    and "\<forall>k < length elems. \<exists>m m'. validateEvent P U m (elems ! k) k = Inr (evs ! k, m')"
    by simp_all
  with obj cfg tt ss ee elems show ?thesis by (simp add: st)
qed

lemma import_rejects_config:
  assumes "isObject data"
  shows "(\<forall>cfg. getProp data ''config'' = Some cfg \<longrightarrow> \<not> isObject cfg)
           \<Longrightarrow> importFromJson P U data = Inl ConfigInvalid"
    and "getProp data ''config'' = Some cfg \<Longrightarrow> isObject cfg
           \<Longrightarrow> isBlank (getProp cfg ''title'')
           \<Longrightarrow> importFromJson P U data = Inl ConfigTitleInvalid"
    and "getProp data ''config'' = Some cfg \<Longrightarrow> isObject cfg
           \<Longrightarrow> \<not> isBlank (getProp cfg ''title'')
           \<Longrightarrow> \<not> isValidISODate P (getProp cfg ''startDate'')
           \<Longrightarrow> importFromJson P U data = Inl ConfigStartDateInvalid"
    and "getProp data ''config'' = Some cfg \<Longrightarrow> isObject cfg
           \<Longrightarrow> \<not> isBlank (getProp cfg ''title'')
           \<Longrightarrow> isValidISODate P (getProp cfg ''startDate'')
           \<Longrightarrow> \<not> isValidISODate P (getProp cfg ''endDate'')
           \<Longrightarrow> importFromJson P U data = Inl ConfigEndDateInvalid"
    and "getProp data ''config'' = Some cfg \<Longrightarrow> isObject cfg
           \<Longrightarrow> \<not> isBlank (getProp cfg ''title'')
           \<Longrightarrow> isValidISODate P (getProp cfg ''startDate'')
           \<Longrightarrow> isValidISODate P (getProp cfg ''endDate'')
           \<Longrightarrow> (\<forall>elems. getProp data ''events'' \<noteq> Some (JArray elems))
           \<Longrightarrow> importFromJson P U data = Inl EventsNotArray"
    and "getProp data ''config'' = Some cfg \<Longrightarrow> isObject cfg
           \<Longrightarrow> \<not> isBlank (getProp cfg ''title'')
           \<Longrightarrow> isValidISODate P (getProp cfg ''startDate'')
           \<Longrightarrow> isValidISODate P (getProp cfg ''endDate'')
           \<Longrightarrow> getProp data ''events'' = Some (JArray elems)
           \<Longrightarrow> k < length elems
           \<Longrightarrow> (\<forall>j < k. \<exists>e m m'. validateEvent P U m (elems ! j) j = Inr (e, m'))
           \<Longrightarrow> validateEvent P U m (elems ! k) k = Inl err
           \<Longrightarrow> importFromJson P U data = Inl err"
proof -
  show "importFromJson P U data = Inl ConfigInvalid"
    if "\<forall>cfg. getProp data ''config'' = Some cfg \<longrightarrow> \<not> isObject cfg"
    using that assms by (auto simp: importFromJson_def split: option.splits)
  show "importFromJson P U data = Inl ConfigTitleInvalid"
    if "getProp data ''config'' = Some cfg" "isObject cfg" "isBlank (getProp cfg ''title'')"
    using that assms by (simp add: importFromJson_def)
  show "importFromJson P U data = Inl ConfigStartDateInvalid"
    if "getProp data ''config'' = Some cfg" "isObject cfg" "\<not> isBlank (getProp cfg ''title'')"
      "\<not> isValidISODate P (getProp cfg ''startDate'')"
    using that assms by (simp add: importFromJson_def)
  show "importFromJson P U data = Inl ConfigEndDateInvalid"
    if "getProp data ''config'' = Some cfg" "isObject cfg" "\<not> isBlank (getProp cfg ''title'')"
      "isValidISODate P (getProp cfg ''startDate'')"
      "\<not> isValidISODate P (getProp cfg ''endDate'')"
    using that assms by (simp add: importFromJson_def)
  show "importFromJson P U data = Inl EventsNotArray"
    if "getProp data ''config'' = Some cfg" "isObject cfg" "\<not> isBlank (getProp cfg ''title'')"
      "isValidISODate P (getProp cfg ''startDate'')"
      "isValidISODate P (getProp cfg ''endDate'')"
      "\<forall>elems. getProp data ''events'' \<noteq> Some (JArray elems)"
    using that assms by (auto simp: importFromJson_def split: option.splits json.splits)
  show "importFromJson P U data = Inl err"
    if "getProp data ''config'' = Some cfg" "isObject cfg" "\<not> isBlank (getProp cfg ''title'')"
      "isValidISODate P (getProp cfg ''startDate'')"
      "isValidISODate P (getProp cfg ''endDate'')"
      "getProp data ''events'' = Some (JArray elems)" "k < length elems"
      "\<forall>j < k. \<exists>e m m'. validateEvent P U m (elems ! j) j = Inr (e, m')"
      "validateEvent P U m (elems ! k) k = Inl err"
  proof -
    have "validateEvents P U 0 elems 0 = Inl err"
      using that(7-9) validateEvents_first_error [of k elems P U 0 m err 0] by simp
    with that assms show ?thesis by (simp add: importFromJson_def)
  qed
qed

text \<open>
  Claim C8. The import resolves only when the root is an object, \<open>config\<close> is an
  object with a title that is a string and not blank and with start and end dates that
  are strings \<open>parseISO\<close> accepts, \<open>events\<close> is an array, and every element of it
  passes \<open>validateEvent\<close>; the state returned holds exactly these config fields and one
  event per element. Otherwise it rejects, with the error of the first check that
  fails: the root, the config object, its title, its start date, its end date, the
  events array, or the first invalid event (not an object, invalid date, team other
  than "red" and "blue", description missing or blank). An accepted event keeps its
  date, team and description; its lane is the document's lane when that is 1, 2, 3 or
  4 and otherwise 1; its id is the document's id when that is a string and not blank,
  and otherwise a newly generated one. Conversely an element that is an object with a
  date \<open>parseISO\<close> accepts, team "red" or "blue" and a description that is a string
  and not blank is accepted whatever its lane and id are, also when they are missing,
  with the lane and id just described; and a document whose root and config pass the
  checks and whose events all pass \<open>validateEvent\<close> is imported. Blank means that
  \<open>trim\<close> leaves nothing: only white space and line terminators of ECMAScript, which
  include U+00A0 and U+FEFF.
\<close>

theorem import_rejects_invalid_documents:
  "isBlank v = (\<forall>text. v = Some (JString text) \<longrightarrow> trim text = [])
   \<and> isValidISODate P v = (\<exists>text. v = Some (JString text) \<and> P text \<noteq> None)
   \<and> (\<not> isObject data \<longrightarrow> importFromJson P U data = Inl RootNotObject)
   \<and> (isObject data \<and> (\<forall>c. getProp data ''config'' = Some c \<longrightarrow> \<not> isObject c) \<longrightarrow>
        importFromJson P U data = Inl ConfigInvalid)
   \<and> (isObject data \<and> getProp data ''config'' = Some cfg \<and> isObject cfg \<longrightarrow>
        (isBlank (getProp cfg ''title'') \<longrightarrow>
           importFromJson P U data = Inl ConfigTitleInvalid)
        \<and> (\<not> isBlank (getProp cfg ''title'')
             \<and> \<not> isValidISODate P (getProp cfg ''startDate'') \<longrightarrow>
           importFromJson P U data = Inl ConfigStartDateInvalid)
        \<and> (\<not> isBlank (getProp cfg ''title'')
             \<and> isValidISODate P (getProp cfg ''startDate'')
             \<and> \<not> isValidISODate P (getProp cfg ''endDate'') \<longrightarrow>
           importFromJson P U data = Inl ConfigEndDateInvalid)
        \<and> (\<not> isBlank (getProp cfg ''title'')
             \<and> isValidISODate P (getProp cfg ''startDate'')
             \<and> isValidISODate P (getProp cfg ''endDate'') \<longrightarrow>
           ((\<forall>elems. getProp data ''events'' \<noteq> Some (JArray elems)) \<longrightarrow>
              importFromJson P U data = Inl EventsNotArray)
           \<and> (getProp data ''events'' = Some (JArray elems) \<and> k < length elems
                \<and> (\<forall>j < k. \<exists>e m m'. validateEvent P U m (elems ! j) j = Inr (e, m'))
                \<and> validateEvent P U m (elems ! k) k = Inl err \<longrightarrow>
              importFromJson P U data = Inl err)))
   \<and> (\<not> isObject ev \<longrightarrow> validateEvent P U n ev i = Inl (EventNotObject i))
   \<and> (isObject ev \<and> \<not> isValidISODate P (getProp ev ''date'') \<longrightarrow>
        validateEvent P U n ev i = Inl (EventDateInvalid i))
   \<and> (isObject ev \<and> isValidISODate P (getProp ev ''date'')
        \<and> getProp ev ''team'' \<noteq> Some (JString ''red'')
        \<and> getProp ev ''team'' \<noteq> Some (JString ''blue'') \<longrightarrow>
        validateEvent P U n ev i = Inl (EventTeamInvalid i))
   \<and> (isObject ev \<and> isValidISODate P (getProp ev ''date'')
        \<and> (getProp ev ''team'' = Some (JString ''red'')
             \<or> getProp ev ''team'' = Some (JString ''blue''))
        \<and> isBlank (getProp ev ''description'') \<longrightarrow>
        validateEvent P U n ev i = Inl (EventDescriptionInvalid i))
   \<and> (validateEvent P U n ev i = Inr (ok, n') \<longrightarrow>
        isObject ev
        \<and> getProp ev ''date'' = Some (JString (date ok)) \<and> P (date ok) \<noteq> None
        \<and> getProp ev ''team'' = Some (JString (if team ok = Red then ''red'' else ''blue''))
        \<and> getProp ev ''description'' = Some (JString (description ok))
        \<and> trim (description ok) \<noteq> []
        \<and> (\<forall>l \<in> {1, 2, 3, 4}.
              getProp ev ''lane'' = Some (JNumber (real_of_int l)) \<longrightarrow> lane ok = Some l)
        \<and> ((\<forall>l \<in> {1, 2, 3, 4}. getProp ev ''lane'' \<noteq> Some (JNumber (real_of_int l))) \<longrightarrow>
              lane ok = Some 1)
        \<and> (\<not> isBlank (getProp ev ''id'') \<longrightarrow>
              getProp ev ''id'' = Some (JString (event_id ok)) \<and> n' = n)
        \<and> (isBlank (getProp ev ''id'') \<longrightarrow> event_id ok = U n \<and> n' = Suc n))
   \<and> (importFromJson P U data = Inr st \<longrightarrow>
        isObject data \<and>
        (\<exists>c elems.
            getProp data ''config'' = Some c \<and> isObject c
          \<and> getProp c ''title'' = Some (JString (title (config st)))
          \<and> trim (title (config st)) \<noteq> []
          \<and> getProp c ''startDate'' = Some (JString (startDate (config st)))
          \<and> P (startDate (config st)) \<noteq> None
          \<and> getProp c ''endDate'' = Some (JString (endDate (config st)))
          \<and> P (endDate (config st)) \<noteq> None
          \<and> getProp data ''events'' = Some (JArray elems)
          \<and> length (events st) = length elems
          \<and> (\<forall>k < length elems. \<exists>m m'.
                validateEvent P U m (elems ! k) k = Inr (events st ! k, m'))))
   \<and> (isObject ev \<and> getProp ev ''date'' = Some (JString d) \<and> P d \<noteq> None
        \<and> getProp ev ''team'' = Some (JString t) \<and> (t = ''red'' \<or> t = ''blue'')
        \<and> getProp ev ''description'' = Some (JString ds) \<and> trim ds \<noteq> [] \<longrightarrow>
        validateEvent P U n ev i
          = Inr (\<lparr> event_id = (case getProp ev ''id'' of
                                   Some (JString s) \<Rightarrow> if trim s = [] then U n else s
                                 | _ \<Rightarrow> U n),
                    date = d,
                    team = (if t = ''red'' then Red else Blue),
                    description = ds,
                    lane = Some (case getProp ev ''lane'' of
                                   Some (JNumber x) \<Rightarrow>
                                     if x = 1 \<or> x = 2 \<or> x = 3 \<or> x = 4 then \<lfloor>x\<rfloor> else 1
                                 | _ \<Rightarrow> 1) \<rparr>,
                 (case getProp ev ''id'' of
                    Some (JString s) \<Rightarrow> if trim s = [] then Suc n else n
                  | _ \<Rightarrow> Suc n)))
   \<and> (isObject data \<and> getProp data ''config'' = Some cfg \<and> isObject cfg
        \<and> \<not> isBlank (getProp cfg ''title'')
        \<and> isValidISODate P (getProp cfg ''startDate'')
        \<and> isValidISODate P (getProp cfg ''endDate'')
        \<and> getProp data ''events'' = Some (JArray elems)
        \<and> (\<forall>j < length elems. \<exists>e m m'. validateEvent P U m (elems ! j) j = Inr (e, m')) \<longrightarrow>
        (\<exists>st. importFromJson P U data = Inr st))"
proof -
  have root: "\<not> isObject data \<longrightarrow> importFromJson P U data = Inl RootNotObject"
    by (simp add: importFromJson_def)
  have cfg: "isObject data \<and> (\<forall>c. getProp data ''config'' = Some c \<longrightarrow> \<not> isObject c) \<longrightarrow>
        importFromJson P U data = Inl ConfigInvalid"
    using import_rejects_config(1) [of data P U] by blast
  have fields: "isObject data \<and> getProp data ''config'' = Some cfg \<and> isObject cfg \<longrightarrow>
        (isBlank (getProp cfg ''title'') \<longrightarrow>
           importFromJson P U data = Inl ConfigTitleInvalid)
        \<and> (\<not> isBlank (getProp cfg ''title'')
             \<and> \<not> isValidISODate P (getProp cfg ''startDate'') \<longrightarrow>
           importFromJson P U data = Inl ConfigStartDateInvalid)
        \<and> (\<not> isBlank (getProp cfg ''title'')
             \<and> isValidISODate P (getProp cfg ''startDate'')
             \<and> \<not> isValidISODate P (getProp cfg ''endDate'') \<longrightarrow>
           importFromJson P U data = Inl ConfigEndDateInvalid)
        \<and> (\<not> isBlank (getProp cfg ''title'')
             \<and> isValidISODate P (getProp cfg ''startDate'')
             \<and> isValidISODate P (getProp cfg ''endDate'') \<longrightarrow>
           ((\<forall>elems. getProp data ''events'' \<noteq> Some (JArray elems)) \<longrightarrow>
              importFromJson P U data = Inl EventsNotArray)
           \<and> (getProp data ''events'' = Some (JArray elems) \<and> k < length elems
                \<and> (\<forall>j < k. \<exists>e m m'. validateEvent P U m (elems ! j) j = Inr (e, m'))
                \<and> validateEvent P U m (elems ! k) k = Inl err \<longrightarrow>
              importFromJson P U data = Inl err))"
    using import_rejects_config(2) [of data cfg P U]
      import_rejects_config(3) [of data cfg P U]
      import_rejects_config(4) [of data cfg P U]
      import_rejects_config(5) [of data cfg P U]
      import_rejects_config(6) [of data cfg P elems k U m err]
    by blast
  have ev1: "\<not> isObject ev \<longrightarrow> validateEvent P U n ev i = Inl (EventNotObject i)"
    using validateEvent_rejects(1) [of ev P U n i] by blast
  have ev2: "isObject ev \<and> \<not> isValidISODate P (getProp ev ''date'') \<longrightarrow>
        validateEvent P U n ev i = Inl (EventDateInvalid i)"
    using validateEvent_rejects(2) [of ev P U n i] by blast
  have ev3: "isObject ev \<and> isValidISODate P (getProp ev ''date'')
        \<and> getProp ev ''team'' \<noteq> Some (JString ''red'')
        \<and> getProp ev ''team'' \<noteq> Some (JString ''blue'') \<longrightarrow>
        validateEvent P U n ev i = Inl (EventTeamInvalid i)"
    using validateEvent_rejects(3) [of ev P U n i] by blast
  have ev4: "isObject ev \<and> isValidISODate P (getProp ev ''date'')
        \<and> (getProp ev ''team'' = Some (JString ''red'')
             \<or> getProp ev ''team'' = Some (JString ''blue''))
        \<and> isBlank (getProp ev ''description'') \<longrightarrow>
        validateEvent P U n ev i = Inl (EventDescriptionInvalid i)"
    using validateEvent_rejects(4) [of ev P U n i] by blast
  have accepted: "validateEvent P U n ev i = Inr (ok, n') \<longrightarrow>
        isObject ev
        \<and> getProp ev ''date'' = Some (JString (date ok)) \<and> P (date ok) \<noteq> None
        \<and> getProp ev ''team'' = Some (JString (if team ok = Red then ''red'' else ''blue''))
        \<and> getProp ev ''description'' = Some (JString (description ok))
        \<and> trim (description ok) \<noteq> []
        \<and> (\<forall>l \<in> {1, 2, 3, 4}.
              getProp ev ''lane'' = Some (JNumber (real_of_int l)) \<longrightarrow> lane ok = Some l)
        \<and> ((\<forall>l \<in> {1, 2, 3, 4}. getProp ev ''lane'' \<noteq> Some (JNumber (real_of_int l))) \<longrightarrow>
              lane ok = Some 1)
        \<and> (\<not> isBlank (getProp ev ''id'') \<longrightarrow>
              getProp ev ''id'' = Some (JString (event_id ok)) \<and> n' = n)
        \<and> (isBlank (getProp ev ''id'') \<longrightarrow> event_id ok = U n \<and> n' = Suc n)"
  proof
    assume a: "validateEvent P U n ev i = Inr (ok, n')"
    note acc = validateEvent_accepts [OF a]
    from acc(1-6) lane_of_accepted [OF acc(7), THEN conjunct1]
      lane_of_accepted [OF acc(7), THEN conjunct2] acc(8,9)
    show "isObject ev
        \<and> getProp ev ''date'' = Some (JString (date ok)) \<and> P (date ok) \<noteq> None
        \<and> getProp ev ''team'' = Some (JString (if team ok = Red then ''red'' else ''blue''))
        \<and> getProp ev ''description'' = Some (JString (description ok))
        \<and> trim (description ok) \<noteq> []
        \<and> (\<forall>l \<in> {1, 2, 3, 4}.
              getProp ev ''lane'' = Some (JNumber (real_of_int l)) \<longrightarrow> lane ok = Some l)
        \<and> ((\<forall>l \<in> {1, 2, 3, 4}. getProp ev ''lane'' \<noteq> Some (JNumber (real_of_int l))) \<longrightarrow>
              lane ok = Some 1)
        \<and> (\<not> isBlank (getProp ev ''id'') \<longrightarrow>
              getProp ev ''id'' = Some (JString (event_id ok)) \<and> n' = n)
        \<and> (isBlank (getProp ev ''id'') \<longrightarrow> event_id ok = U n \<and> n' = Suc n)"
      by (intro conjI) assumption+
  qed
  have accepts: "importFromJson P U data = Inr st \<longrightarrow>
        isObject data \<and>
        (\<exists>c elems.
            getProp data ''config'' = Some c \<and> isObject c
          \<and> getProp c ''title'' = Some (JString (title (config st)))
          \<and> trim (title (config st)) \<noteq> []
          \<and> getProp c ''startDate'' = Some (JString (startDate (config st)))
          \<and> P (startDate (config st)) \<noteq> None
          \<and> getProp c ''endDate'' = Some (JString (endDate (config st)))
          \<and> P (endDate (config st)) \<noteq> None
          \<and> getProp data ''events'' = Some (JArray elems)
          \<and> length (events st) = length elems
          \<and> (\<forall>k < length elems. \<exists>m m'.
                validateEvent P U m (elems ! k) k = Inr (events st ! k, m')))"
    by (rule impI) (rule import_accepts)
  have valid_event: "isObject ev \<and> getProp ev ''date'' = Some (JString d) \<and> P d \<noteq> None
        \<and> getProp ev ''team'' = Some (JString t) \<and> (t = ''red'' \<or> t = ''blue'')
        \<and> getProp ev ''description'' = Some (JString ds) \<and> trim ds \<noteq> [] \<longrightarrow>
        validateEvent P U n ev i
          = Inr (\<lparr> event_id = (case getProp ev ''id'' of
                                   Some (JString s) \<Rightarrow> if trim s = [] then U n else s
                                 | _ \<Rightarrow> U n),
                    date = d,
                    team = (if t = ''red'' then Red else Blue),
                    description = ds,
                    lane = Some (case getProp ev ''lane'' of
                                   Some (JNumber x) \<Rightarrow>
                                     if x = 1 \<or> x = 2 \<or> x = 3 \<or> x = 4 then \<lfloor>x\<rfloor> else 1
                                 | _ \<Rightarrow> 1) \<rparr>,
                 (case getProp ev ''id'' of
                    Some (JString s) \<Rightarrow> if trim s = [] then Suc n else n
                  | _ \<Rightarrow> Suc n))"
    using validateEvent_accepts_valid [of ev d P t ds U n i] by blast
  have valid_document: "isObject data \<and> getProp data ''config'' = Some cfg \<and> isObject cfg
        \<and> \<not> isBlank (getProp cfg ''title'')
        \<and> isValidISODate P (getProp cfg ''startDate'')
        \<and> isValidISODate P (getProp cfg ''endDate'')
        \<and> getProp data ''events'' = Some (JArray elems)
        \<and> (\<forall>j < length elems. \<exists>e m m'. validateEvent P U m (elems ! j) j = Inr (e, m')) \<longrightarrow>
        (\<exists>st. importFromJson P U data = Inr st)"
    using import_accepts_valid [of data cfg P elems U] by blast
  note parts = isBlank_iff [of v] isValidISODate_iff [of P v] root cfg fields ev1 ev2 ev3 ev4
    accepted accepts valid_event valid_document
  show ?thesis by (intro conjI) (rule parts)+
qed

lemma trim_samples:
  "trim ''Assessment'' = ''Assessment''" "trim ''Initial recon'' = ''Initial recon''"
  "trim ''Alert'' = ''Alert''" "trim ''e1'' = ''e1''" "trim ''e2'' = ''e2''"
  "trim [] = []" "trim '' '' = []" "trim [CHR 0xC2, CHR 0xA0] = []"
  "trim ([CHR 0xEF, CHR 0xBB, CHR 0xBF] @ ''e1'' @ [CHR 0xE2, CHR 0x80, CHR 0xA8, CHR 0x0A]) = ''e1''"
  by (simp_all add: trim_def isWhiteSpace_def whiteSpace_def)

lemma sampleParse_values:
  "sampleParse ''2024-01-01'' = Some 0" "sampleParse ''2024-01-02'' = Some 1"
  "sampleParse ''2024-01-03'' = Some 2" "sampleParse ''2024-01-11'' = Some 10"
  "sampleParse ''soon'' = None"
  by (simp_all add: sampleParse_def sampleCalendar_def)

lemma sampleJsonEvent_props:
  "isObject (sampleJsonEvent i d t text l)"
  "getProp (sampleJsonEvent i d t text l) ''id'' = Some (JString i)"
  "getProp (sampleJsonEvent i d t text l) ''date'' = Some (JString d)"
  "getProp (sampleJsonEvent i d t text l) ''team'' = Some (JString t)"
  "getProp (sampleJsonEvent i d t text l) ''description'' = Some (JString text)"
  "getProp (sampleJsonEvent i d t text l) ''lane'' = Some (JNumber l)"
  by (simp_all add: sampleJsonEvent_def)

lemma sampleDocument_props:
  "isObject (sampleDocument second)"
  "getProp (sampleDocument second) ''config''
     = Some (JObject [(''title'', JString ''Assessment''),
                      (''startDate'', JString ''2024-01-01''),
                      (''endDate'', JString ''2024-01-11'')])"
  "getProp (sampleDocument second) ''events''
     = Some (JArray [sampleJsonEvent ''e1'' ''2024-01-02'' ''red'' ''Initial recon'' 2, second])"
  by (simp_all add: sampleDocument_def)

lemma sample_first_event:
  "validateEvent sampleParse U n (sampleJsonEvent ''e1'' ''2024-01-02'' ''red'' ''Initial recon'' 2) i
     = Inr (\<lparr> event_id = ''e1'', date = ''2024-01-02'', team = Red,
               description = ''Initial recon'', lane = Some 2 \<rparr>, n)"
  by (simp add: validateEvent_def sampleJsonEvent_props isValidISODate_def isBlank_def
      trim_samples sampleParse_values)

lemma sample_second_event:
  "validateEvent sampleParse U n
       (JObject [(''date'', JString ''2024-01-03''), (''team'', JString ''blue''),
                 (''description'', JString ''Alert''), (''lane'', JNumber 7)]) i
     = Inr (\<lparr> event_id = U n, date = ''2024-01-03'', team = Blue,
               description = ''Alert'', lane = Some 1 \<rparr>, Suc n)"
  by (simp add: validateEvent_def isValidISODate_def isBlank_def
      trim_samples sampleParse_values)

lemma sample_import:
  "importFromJson sampleParse U
     (sampleDocument (JObject [(''date'', JString ''2024-01-03''), (''team'', JString ''blue''),
                               (''description'', JString ''Alert''), (''lane'', JNumber 7)]))
   = Inr \<lparr> config = \<lparr> startDate = ''2024-01-01'', endDate = ''2024-01-11'',
                       title = ''Assessment'' \<rparr>,
           events = [\<lparr> event_id = ''e1'', date = ''2024-01-02'', team = Red,
                        description = ''Initial recon'', lane = Some 2 \<rparr>,
                     \<lparr> event_id = U 0, date = ''2024-01-03'', team = Blue,
                        description = ''Alert'', lane = Some 1 \<rparr>] \<rparr>"
  by (simp add: importFromJson_def sampleDocument_props isValidISODate_def isBlank_def
      trim_samples sampleParse_values sample_first_event sample_second_event)

theorem import_rejects_invalid_documents_witness:
  "importFromJson sampleParse sampleUuidv4
     (sampleDocument (JObject [(''date'', JString ''2024-01-03''), (''team'', JString ''blue''),
                               (''description'', JString ''Alert''), (''lane'', JNumber 7)]))
   = Inr \<lparr> config = \<lparr> startDate = ''2024-01-01'', endDate = ''2024-01-11'',
                       title = ''Assessment'' \<rparr>,
           events = [\<lparr> event_id = ''e1'', date = ''2024-01-02'', team = Red,
                        description = ''Initial recon'', lane = Some 2 \<rparr>,
                     \<lparr> event_id = sampleUuidv4 0, date = ''2024-01-03'', team = Blue,
                        description = ''Alert'', lane = Some 1 \<rparr>] \<rparr>
   \<and> \<not> isObject (JString ''timeline'')
   \<and> importFromJson sampleParse sampleUuidv4 (JString ''timeline'') = Inl RootNotObject
   \<and> importFromJson sampleParse sampleUuidv4 (JObject [(''config'', JString ''none'')])
       = Inl ConfigInvalid
   \<and> \<not> isValidISODate sampleParse
         (getProp (sampleJsonEvent ''e2'' ''soon'' ''blue'' ''Alert'' 1) ''date'')
   \<and> importFromJson sampleParse sampleUuidv4
         (sampleDocument (sampleJsonEvent ''e2'' ''soon'' ''blue'' ''Alert'' 1))
       = Inl (EventDateInvalid 1)
   \<and> importFromJson sampleParse sampleUuidv4
         (sampleDocument (sampleJsonEvent ''e2'' ''2024-01-03'' ''green'' ''Alert'' 1))
       = Inl (EventTeamInvalid 1)
   \<and> isBlank (getProp (sampleJsonEvent ''e2'' ''2024-01-03'' ''blue'' '' '' 1) ''description'')
   \<and> importFromJson sampleParse sampleUuidv4
         (sampleDocument (sampleJsonEvent ''e2'' ''2024-01-03'' ''blue'' '' '' 1))
       = Inl (EventDescriptionInvalid 1)
   \<and> isBlank (getProp (sampleJsonEvent ''e2'' ''2024-01-03'' ''blue'' [CHR 0xC2, CHR 0xA0] 1)
                ''description'')
   \<and> importFromJson sampleParse sampleUuidv4
         (sampleDocument (sampleJsonEvent ''e2'' ''2024-01-03'' ''blue'' [CHR 0xC2, CHR 0xA0] 1))
       = Inl (EventDescriptionInvalid 1)
   \<and> validateEvent sampleParse sampleUuidv4 0
         (JObject [(''id'', JString [CHR 0xC2, CHR 0xA0]), (''date'', JString ''2024-01-03''),
                   (''team'', JString ''blue''), (''description'', JString ''Alert'')]) 1
       = Inr (\<lparr> event_id = sampleUuidv4 0, date = ''2024-01-03'', team = Blue,
                 description = ''Alert'', lane = Some 1 \<rparr>, 1)"
proof -
  let ?cfg = "JObject [(''title'', JString ''Assessment''),
                      (''startDate'', JString ''2024-01-01''),
                      (''endDate'', JString ''2024-01-11'')]"
  let ?first = "sampleJsonEvent ''e1'' ''2024-01-02'' ''red'' ''Initial recon'' 2"
  have cfg_ok: "isObject ?cfg" "\<not> isBlank (getProp ?cfg ''title'')"
    "isValidISODate sampleParse (getProp ?cfg ''startDate'')"
    "isValidISODate sampleParse (getProp ?cfg ''endDate'')"
    by (simp_all add: isBlank_def isValidISODate_def trim_samples sampleParse_values)
  have rejected: "importFromJson sampleParse sampleUuidv4 (sampleDocument second) = Inl err"
    if bad: "validateEvent sampleParse sampleUuidv4 0 second 1 = Inl err" for second err
  proof -
    have "isObject (sampleDocument second)
          \<and> getProp (sampleDocument second) ''config'' = Some ?cfg \<and> isObject ?cfg"
      by (simp add: sampleDocument_props)
    from import_rejects_invalid_documents
      [where P = sampleParse and U = sampleUuidv4 and data = "sampleDocument second"
        and cfg = ?cfg and elems = "[?first, second]" and k = 1 and m = 0 and err = err,
        THEN conjunct2, THEN conjunct2, THEN conjunct2, THEN conjunct2, THEN conjunct1,
        THEN mp, OF this]
    have "getProp (sampleDocument second) ''events'' = Some (JArray [?first, second])
          \<and> 1 < length [?first, second]
          \<and> (\<forall>j < 1. \<exists>e m m'. validateEvent sampleParse sampleUuidv4 m ([?first, second] ! j) j
                                 = Inr (e, m'))
          \<and> validateEvent sampleParse sampleUuidv4 0 ([?first, second] ! 1) 1 = Inl err
          \<longrightarrow> importFromJson sampleParse sampleUuidv4 (sampleDocument second) = Inl err"
      using cfg_ok by blast
    moreover have "\<forall>j < 1. \<exists>e m m'.
        validateEvent sampleParse sampleUuidv4 m ([?first, second] ! j) j = Inr (e, m')"
      by (simp add: sample_first_event)
    ultimately show ?thesis using bad by (simp add: sampleDocument_props)
  qed
  have bad_date: "\<not> isValidISODate sampleParse
         (getProp (sampleJsonEvent ''e2'' ''soon'' ''blue'' ''Alert'' 1) ''date'')"
    by (simp add: isValidISODate_def sampleJsonEvent_props sampleParse_values)
  have good_date: "isValidISODate sampleParse
         (getProp (sampleJsonEvent ''e2'' ''2024-01-03'' t d 1) ''date'')" for t d
    by (simp add: isValidISODate_def sampleJsonEvent_props sampleParse_values)
  have blank: "isBlank (getProp (sampleJsonEvent ''e2'' ''2024-01-03'' ''blue'' '' '' 1) ''description'')"
    by (simp add: isBlank_def sampleJsonEvent_props trim_samples)
  have e1: "validateEvent sampleParse sampleUuidv4 0
              (sampleJsonEvent ''e2'' ''soon'' ''blue'' ''Alert'' 1) 1 = Inl (EventDateInvalid 1)"
    using import_rejects_invalid_documents
      [where P = sampleParse and U = sampleUuidv4 and n = 0 and i = 1
        and ev = "sampleJsonEvent ''e2'' ''soon'' ''blue'' ''Alert'' 1",
        THEN conjunct2, THEN conjunct2, THEN conjunct2, THEN conjunct2, THEN conjunct2, THEN conjunct2, THEN conjunct1]
      bad_date
    by (simp add: sampleJsonEvent_props)
  have e2: "validateEvent sampleParse sampleUuidv4 0
              (sampleJsonEvent ''e2'' ''2024-01-03'' ''green'' ''Alert'' 1) 1
            = Inl (EventTeamInvalid 1)"
    using import_rejects_invalid_documents
      [where P = sampleParse and U = sampleUuidv4 and n = 0 and i = 1
        and ev = "sampleJsonEvent ''e2'' ''2024-01-03'' ''green'' ''Alert'' 1",
        THEN conjunct2, THEN conjunct2, THEN conjunct2, THEN conjunct2, THEN conjunct2, THEN conjunct2, THEN conjunct2, THEN conjunct1]
      good_date
    by (simp add: sampleJsonEvent_props)
  have e3: "validateEvent sampleParse sampleUuidv4 0
              (sampleJsonEvent ''e2'' ''2024-01-03'' ''blue'' '' '' 1) 1
            = Inl (EventDescriptionInvalid 1)"
    using import_rejects_invalid_documents
      [where P = sampleParse and U = sampleUuidv4 and n = 0 and i = 1
        and ev = "sampleJsonEvent ''e2'' ''2024-01-03'' ''blue'' '' '' 1",
        THEN conjunct2, THEN conjunct2, THEN conjunct2, THEN conjunct2, THEN conjunct2, THEN conjunct2, THEN conjunct2, THEN conjunct2, THEN conjunct1]
      good_date blank
    by (simp add: sampleJsonEvent_props)
  have root: "importFromJson sampleParse sampleUuidv4 (JString ''timeline'') = Inl RootNotObject"
    using import_rejects_invalid_documents
      [where P = sampleParse and U = sampleUuidv4 and data = "JString ''timeline''",
        THEN conjunct2, THEN conjunct2, THEN conjunct1]
    by simp
  have no_config: "importFromJson sampleParse sampleUuidv4 (JObject [(''config'', JString ''none'')])
       = Inl ConfigInvalid"
    using import_rejects_invalid_documents
      [where P = sampleParse and U = sampleUuidv4
        and data = "JObject [(''config'', JString ''none'')]",
        THEN conjunct2, THEN conjunct2, THEN conjunct2, THEN conjunct1]
    by simp
  have blank_nbsp: "isBlank (getProp (sampleJsonEvent ''e2'' ''2024-01-03'' ''blue''
                                        [CHR 0xC2, CHR 0xA0] 1) ''description'')"
    by (simp add: isBlank_def sampleJsonEvent_props trim_samples)
  have e4: "validateEvent sampleParse sampleUuidv4 0
              (sampleJsonEvent ''e2'' ''2024-01-03'' ''blue'' [CHR 0xC2, CHR 0xA0] 1) 1
            = Inl (EventDescriptionInvalid 1)"
    using import_rejects_invalid_documents
      [where P = sampleParse and U = sampleUuidv4 and n = 0 and i = 1
        and ev = "sampleJsonEvent ''e2'' ''2024-01-03'' ''blue'' [CHR 0xC2, CHR 0xA0] 1",
        THEN conjunct2, THEN conjunct2, THEN conjunct2, THEN conjunct2, THEN conjunct2,
        THEN conjunct2, THEN conjunct2, THEN conjunct2, THEN conjunct1]
      good_date blank_nbsp
    by (simp add: sampleJsonEvent_props)
  let ?bare = "JObject [(''id'', JString [CHR 0xC2, CHR 0xA0]), (''date'', JString ''2024-01-03''),
                        (''team'', JString ''blue''), (''description'', JString ''Alert'')]"
  have bare: "validateEvent sampleParse sampleUuidv4 0 ?bare 1
       = Inr (\<lparr> event_id = sampleUuidv4 0, date = ''2024-01-03'', team = Blue,
                 description = ''Alert'', lane = Some 1 \<rparr>, 1)"
    using import_rejects_invalid_documents
      [where P = sampleParse and U = sampleUuidv4 and n = 0 and i = 1 and ev = ?bare
        and d = "''2024-01-03''" and t = "''blue''" and ds = "''Alert''",
        THEN conjunct2, THEN conjunct2, THEN conjunct2, THEN conjunct2, THEN conjunct2,
        THEN conjunct2, THEN conjunct2, THEN conjunct2, THEN conjunct2, THEN conjunct2,
        THEN conjunct2, THEN conjunct1]
    by (simp add: trim_samples sampleParse_values)
  from root no_config bad_date blank blank_nbsp bare
    rejected [OF e1] rejected [OF e2] rejected [OF e3] rejected [OF e4]
  show ?thesis by (simp add: sample_import)
qed

section \<open>Export and re-import\<close>

lemma eventToJson_props:
  "isObject (eventToJson e)"
  "getProp (eventToJson e) ''id'' = Some (JString (event_id e))"
  "getProp (eventToJson e) ''date'' = Some (JString (date e))"
  "getProp (eventToJson e) ''team''
     = Some (JString (case team e of Red \<Rightarrow> ''red'' | Blue \<Rightarrow> ''blue''))"
  "getProp (eventToJson e) ''description'' = Some (JString (description e))"
  "getProp (eventToJson e) ''lane'' = map_option (\<lambda>l. JNumber (real_of_int l)) (lane e)"
  by (simp_all add: eventToJson_def split: option.splits)

lemma documentToJson_props:
  "isObject (documentToJson colors st)"
  "getProp (documentToJson colors st) ''config''
     = Some (JObject [(''startDate'', JString (startDate (config st))),
                      (''endDate'', JString (endDate (config st))),
                      (''title'', JString (title (config st)))])"
  "getProp (documentToJson colors st) ''events'' = Some (JArray (map eventToJson (events st)))"
  by (simp_all add: documentToJson_def)

lemma validateEvent_exported:
  assumes "trim (event_id e) \<noteq> []" "P (date e) \<noteq> None" "trim (description e) \<noteq> []"
    "lane e \<in> {Some 1, Some 2, Some 3, Some 4}"
  shows "validateEvent P U n (eventToJson e) i = Inr (e, n)"
proof -
  from assms(4) obtain lv where lv: "lane e = Some lv"
    and range: "lv = 1 \<or> lv = 2 \<or> lv = 3 \<or> lv = 4"
    by auto
  from lv have same: "\<lparr> event_id = event_id e, date = date e, team = team e,
                        description = description e, lane = Some lv \<rparr> = e"
    by simp
  have t: "(if (case team e of Red \<Rightarrow> ''red'' | Blue \<Rightarrow> ''blue'') = ''red'' then Red else Blue)
           = team e"
    by (cases "team e") simp_all
  have tv: "(case team e of Red \<Rightarrow> ''red'' | Blue \<Rightarrow> ''blue'') = ''red''
            \<or> (case team e of Red \<Rightarrow> ''red'' | Blue \<Rightarrow> ''blue'') = ''blue''"
    by (cases "team e") simp_all
  show ?thesis
    using assms(1-3) tv range
    by (auto simp: validateEvent_def eventToJson_props isValidISODate_def isBlank_def lv t same)
qed

lemma validateEvents_exported:
  assumes "\<forall>e \<in> set es. trim (event_id e) \<noteq> [] \<and> P (date e) \<noteq> None
             \<and> trim (description e) \<noteq> [] \<and> lane e \<in> {Some 1, Some 2, Some 3, Some 4}"
  shows "validateEvents P U n (map eventToJson es) i = Inr es"
  using assms
proof (induction es arbitrary: i)
  case Nil
  show ?case by simp
next
  case (Cons e es)
  then have "validateEvent P U n (eventToJson e) i = Inr (e, n)"
    by (intro validateEvent_exported) simp_all
  moreover from Cons have "validateEvents P U n (map eventToJson es) (Suc i) = Inr es" by simp
  ultimately show ?case by simp
qed

text \<open>
  Claim C9, as amended. Let the config of a state have a title that is not blank and
  start and end dates that \<open>parseISO\<close> accepts, and let every event have an id and a
  description that are not blank (not empty after \<open>trim\<close>, which strips the white space
  and line terminators of ECMAScript, U+00A0 and U+FEFF among them), a date that
  \<open>parseISO\<close> accepts and a lane from 1 to 4. Then importing the exported document
  resolves with the same state: the same config and the same events in the same order,
  no id regenerated, whatever the exported colors are.
\<close>

theorem export_import_round_trip:
  assumes "trim (title (config st)) \<noteq> []"
    and "P (startDate (config st)) \<noteq> None" and "P (endDate (config st)) \<noteq> None"
    and "\<forall>e \<in> set (events st). trim (event_id e) \<noteq> [] \<and> P (date e) \<noteq> None
           \<and> trim (description e) \<noteq> [] \<and> lane e \<in> {Some 1, Some 2, Some 3, Some 4}"
  shows "importFromJson P U (documentToJson colors (exportState st)) = Inr st"
proof -
  have evs: "validateEvents P U 0 (map eventToJson (events st)) 0 = Inr (events st)"
    using assms(4) by (rule validateEvents_exported)
  have cfg: "\<lparr> startDate = startDate (config st), endDate = endDate (config st),
               title = title (config st) \<rparr> = config st"
    by simp
  show ?thesis
    using assms(1-3)
    by (simp add: importFromJson_def exportState_def documentToJson_props isValidISODate_def
        isBlank_def evs cfg)
qed

lemma sampleState_valid:
  "trim (title (config sampleState)) = ''Assessment''"
  "sampleParse (startDate (config sampleState)) = Some 0"
  "sampleParse (endDate (config sampleState)) = Some 10"
  "trim (event_id (sampleEvent ''e1'' ''2024-01-02'' Red 2)) = ''e1''"
  "trim (event_id (sampleEvent ''e2'' ''2024-01-03'' Blue 4)) = ''e2''"
  "trim (description (sampleEvent i d t l)) = ''Initial recon''"
  by (simp_all add: sampleState_def sampleConfig_def sampleEvent_def sampleParse_values
      trim_def isWhiteSpace_def whiteSpace_def)

theorem export_import_round_trip_witness:
  "trim (title (config sampleState)) \<noteq> []
   \<and> sampleParse (startDate (config sampleState)) \<noteq> None
   \<and> sampleParse (endDate (config sampleState)) \<noteq> None
   \<and> events sampleState
       = [sampleEvent ''e1'' ''2024-01-02'' Red 2, sampleEvent ''e2'' ''2024-01-03'' Blue 4]
   \<and> trim (event_id (sampleEvent ''e1'' ''2024-01-02'' Red 2)) \<noteq> []
   \<and> trim (event_id (sampleEvent ''e2'' ''2024-01-03'' Blue 4)) \<noteq> []
   \<and> importFromJson sampleParse sampleUuidv4 (documentToJson JNull (exportState sampleState))
       = Inr sampleState"
proof -
  have evs: "events sampleState
       = [sampleEvent ''e1'' ''2024-01-02'' Red 2, sampleEvent ''e2'' ''2024-01-03'' Blue 4]"
    by (simp add: sampleState_def)
  have all: "\<forall>e \<in> set (events sampleState).
      trim (event_id e) \<noteq> [] \<and> sampleParse (date e) \<noteq> None
      \<and> trim (description e) \<noteq> [] \<and> lane e \<in> {Some 1, Some 2, Some 3, Some 4}"
    by (simp add: evs sampleState_valid sampleEvent_fields sampleParse_values trim_samples)
  have "importFromJson sampleParse sampleUuidv4 (documentToJson JNull (exportState sampleState))
       = Inr sampleState"
    by (rule export_import_round_trip [OF _ _ _ all]) (simp_all add: sampleState_valid)
  then show ?thesis by (simp add: sampleState_valid evs)
qed

text \<open>
  Claim C9 as stated fails. An event whose id is one space has a non-empty id, a valid
  date, a non-empty description and lane 1, yet the import regenerates its id, so the
  imported event list differs from the exported one. An event whose description is
  one space, or the one code point U+00A0, has a non-empty description, yet the import
  of the exported document is rejected; so is that of a state whose config has an
  empty title while all its events are valid.
\<close>

theorem export_import_round_trip_counterexample:
  "event_id (sampleEvent '' '' ''2024-01-02'' Red 1) \<noteq> []
   \<and> sampleParse (date (sampleEvent '' '' ''2024-01-02'' Red 1)) \<noteq> None
   \<and> description (sampleEvent '' '' ''2024-01-02'' Red 1) \<noteq> []
   \<and> lane (sampleEvent '' '' ''2024-01-02'' Red 1) = Some 1
   \<and> importFromJson sampleParse sampleUuidv4 (documentToJson JNull (exportState blankIdState))
       = Inr \<lparr> config = sampleConfig,
               events = [sampleEvent (sampleUuidv4 0) ''2024-01-02'' Red 1] \<rparr>
   \<and> sampleUuidv4 0 \<noteq> '' ''
   \<and> importFromJson sampleParse sampleUuidv4 (documentToJson JNull (exportState blankIdState))
       \<noteq> Inr blankIdState
   \<and> importFromJson sampleParse sampleUuidv4
         (documentToJson JNull (exportState blankDescriptionState))
       = Inl (EventDescriptionInvalid 0)
   \<and> importFromJson sampleParse sampleUuidv4 (documentToJson JNull (exportState untitledState))
       = Inl ConfigTitleInvalid
   \<and> description ((sampleEvent ''e1'' ''2024-01-02'' Red 1)
                    \<lparr>description := [CHR 0xC2, CHR 0xA0]\<rparr>) \<noteq> []
   \<and> importFromJson sampleParse sampleUuidv4
         (documentToJson JNull (exportState nbspDescriptionState))
       = Inl (EventDescriptionInvalid 0)"
proof -
  have cfg: "isValidISODate sampleParse (Some (JString (startDate sampleConfig)))"
    "isValidISODate sampleParse (Some (JString (endDate sampleConfig)))"
    "\<not> isBlank (Some (JString (title sampleConfig)))"
    "\<lparr> startDate = startDate sampleConfig, endDate = endDate sampleConfig,
       title = title sampleConfig \<rparr> = sampleConfig"
    by (simp_all add: isValidISODate_def isBlank_def sampleConfig_def sampleParse_values
        trim_samples)
  have blank_id: "validateEvent sampleParse sampleUuidv4 0
        (eventToJson (sampleEvent '' '' ''2024-01-02'' Red 1)) 0
      = Inr (sampleEvent (sampleUuidv4 0) ''2024-01-02'' Red 1, Suc 0)"
    by (simp add: validateEvent_def eventToJson_props isValidISODate_def isBlank_def
        sampleEvent_def sampleParse_values trim_def isWhiteSpace_def whiteSpace_def)
  have blank_description: "validateEvent sampleParse sampleUuidv4 0
        (eventToJson ((sampleEvent ''e1'' ''2024-01-02'' Red 1)\<lparr>description := '' ''\<rparr>)) 0
      = Inl (EventDescriptionInvalid 0)"
    by (simp add: validateEvent_def eventToJson_props isValidISODate_def isBlank_def
        sampleEvent_def sampleParse_values trim_def isWhiteSpace_def whiteSpace_def)
  have nbsp_description: "validateEvent sampleParse sampleUuidv4 0
        (eventToJson ((sampleEvent ''e1'' ''2024-01-02'' Red 1)
                        \<lparr>description := [CHR 0xC2, CHR 0xA0]\<rparr>)) 0
      = Inl (EventDescriptionInvalid 0)"
    by (simp add: validateEvent_def eventToJson_props isValidISODate_def isBlank_def
        sampleEvent_def sampleParse_values trim_def isWhiteSpace_def whiteSpace_def)
  have one: "importFromJson sampleParse sampleUuidv4
        (documentToJson JNull (exportState blankIdState))
      = Inr \<lparr> config = sampleConfig,
              events = [sampleEvent (sampleUuidv4 0) ''2024-01-02'' Red 1] \<rparr>"
    by (simp add: importFromJson_def exportState_def documentToJson_props blankIdState_def
        cfg blank_id)
  have two: "importFromJson sampleParse sampleUuidv4
         (documentToJson JNull (exportState blankDescriptionState))
       = Inl (EventDescriptionInvalid 0)"
    by (simp add: importFromJson_def exportState_def documentToJson_props
        blankDescriptionState_def cfg blank_description)
  have three: "importFromJson sampleParse sampleUuidv4
         (documentToJson JNull (exportState untitledState))
       = Inl ConfigTitleInvalid"
    by (simp add: importFromJson_def exportState_def documentToJson_props untitledState_def
        isBlank_def trim_samples)
  have four: "importFromJson sampleParse sampleUuidv4
         (documentToJson JNull (exportState nbspDescriptionState))
       = Inl (EventDescriptionInvalid 0)"
    by (simp add: importFromJson_def exportState_def documentToJson_props
        nbspDescriptionState_def cfg nbsp_description)
  have differ: "sampleUuidv4 0 \<noteq> '' ''" by (simp add: sampleUuidv4_def)
  then have "\<lparr> config = sampleConfig,
              events = [sampleEvent (sampleUuidv4 0) ''2024-01-02'' Red 1] \<rparr> \<noteq> blankIdState"
    by (simp add: blankIdState_def sampleEvent_def)
  with one two three four differ show ?thesis
    by (simp add: sampleEvent_fields sampleParse_values sampleEvent_def)
qed

end
